theory Spec2Isabelle
  imports Complex_Main "HOL-Library.Char_ord" "HOL-Library.List_Lexorder"
    "HOL-Library.Product_Lexorder"
begin

section \<open>Cohort CAC/LTV pipeline (src/src/cohort_cli.py)\<close>

subsection \<open>Float cells\<close>

text \<open>
  A cell of a float64 column. Finite values are carried as rationals, so rounding and
  overflow of the binary format are not represented and the two signed zeros are one
  value; the three special values of the format are kept, since pandas uses \<open>NaN\<close> as
  its missing-value marker and float division by zero yields an infinity or \<open>NaN\<close>
  instead of raising.
\<close>

datatype fl = Fin rat | PInf | NInf | NaN

fun fadd :: "fl \<Rightarrow> fl \<Rightarrow> fl" where
  "fadd NaN _ = NaN"
| "fadd _ NaN = NaN"
| "fadd (Fin a) (Fin b) = Fin (a + b)"
| "fadd PInf NInf = NaN"
| "fadd NInf PInf = NaN"
| "fadd PInf _ = PInf"
| "fadd _ PInf = PInf"
| "fadd NInf _ = NInf"
| "fadd _ NInf = NInf"

fun fdiv :: "fl \<Rightarrow> fl \<Rightarrow> fl" where
  "fdiv NaN _ = NaN"
| "fdiv _ NaN = NaN"
| "fdiv (Fin a) (Fin b) =
     (if b \<noteq> 0 then Fin (a / b)
      else if a = 0 then NaN
      else if 0 < a then PInf else NInf)"
| "fdiv (Fin a) PInf = Fin 0"
| "fdiv (Fin a) NInf = Fin 0"
| "fdiv PInf (Fin b) = (if 0 \<le> b then PInf else NInf)"
| "fdiv NInf (Fin b) = (if 0 \<le> b then NInf else PInf)"
| "fdiv PInf PInf = NaN"
| "fdiv PInf NInf = NaN"
| "fdiv NInf PInf = NaN"
| "fdiv NInf NInf = NaN"

text \<open>The comparison \<open>\<le>\<close> of the format: every comparison with \<open>NaN\<close> is false.\<close>

fun fle :: "fl \<Rightarrow> fl \<Rightarrow> bool" where
  "fle NaN _ = False"
| "fle _ NaN = False"
| "fle (Fin a) (Fin b) = (a \<le> b)"
| "fle NInf _ = True"
| "fle _ PInf = True"
| "fle PInf _ = False"
| "fle _ NInf = False"

text \<open>\<open>Series.replace(0, np.nan)\<close> and \<open>fillna(0)\<close>, cell by cell.\<close>

definition replace_0_nan :: "fl \<Rightarrow> fl" where
  "replace_0_nan x = (if x = Fin 0 then NaN else x)"

definition fillna_0 :: "fl \<Rightarrow> fl" where
  "fillna_0 x = (if x = NaN then Fin 0 else x)"

datatype error = ValueError | KeyError | AttributeError

subsection \<open>Frames of \<open>ltv_tables\<close>\<close>

text \<open>
  \<open>cohort_rev\<close> has the columns cohort_month, months_since_cohort, revenue and
  \<open>acq_counts\<close> the columns cohort_month, new_customers (an int64 column). A frame is the
  list of its rows, in row order.
\<close>

record rev_row =
  rv_cohort_month :: string
  rv_months_since_cohort :: int
  rv_revenue :: fl

record acq_row =
  aq_cohort_month :: string
  aq_new_customers :: int

text \<open>The frame \<open>ltv\<close>: the columns of \<open>cohort_rev\<close>, then new_customers and ltv.\<close>

record ltv_row = rev_row +
  lt_new_customers :: fl
  lt_ltv :: fl

text \<open>
  A pivoted frame: the row labels, the column labels and the cells row by row.
  \<open>loc g c k\<close> is \<open>g.loc[c, k]\<close>; \<open>None\<close> stands for the KeyError of a missing label.
\<close>

record grid =
  index :: "string list"
  columns :: "int list"
  cells :: "fl list list"

definition loc :: "grid \<Rightarrow> string \<Rightarrow> int \<Rightarrow> fl option" where
  "loc g c k =
     (case map_of (zip (index g) (cells g)) c of
        None \<Rightarrow> None
      | Some row \<Rightarrow> map_of (zip (columns g) row) k)"

subsection \<open>Timestamps\<close>

text \<open>
  A value of a datetime column, kept as the number of its calendar month counted from
  January of year 0 (year \<open>= month_no div 12\<close>, month \<open>= month_no mod 12 + 1\<close>) and its
  position inside that month in nanoseconds. Timestamps are ordered by month, then by
  position. A missing date (\<open>NaT\<close>) is not a value of this type: the orders table is
  taken to hold a date in every row, as its data model requires.
\<close>

record timestamp =
  month_no :: int
  in_month :: nat

definition year_of :: "timestamp \<Rightarrow> int" where
  "year_of t = month_no t div 12"

definition month_of :: "timestamp \<Rightarrow> int" where
  "month_of t = month_no t mod 12 + 1"

definition ts_le :: "timestamp \<Rightarrow> timestamp \<Rightarrow> bool" where
  "ts_le a b = (month_no a < month_no b \<or> (month_no a = month_no b \<and> in_month a \<le> in_month b))"

text \<open>SQL \<open>date_trunc('month', t)\<close> and \<open>date_diff('month', a, b)\<close>.\<close>

definition date_trunc_month :: "timestamp \<Rightarrow> timestamp" where
  "date_trunc_month t = t\<lparr>in_month := 0\<rparr>"

definition date_diff_month :: "timestamp \<Rightarrow> timestamp \<Rightarrow> int" where
  "date_diff_month a b = (year_of b - year_of a) * 12 + (month_of b - month_of a)"

text \<open>
  The format \<open>%Y-%m\<close>, which is also the text of a monthly period: four digits of the
  year and two of the month (the years of a nanosecond timestamp lie in 1677..2262).
\<close>

definition digit :: "nat \<Rightarrow> char" where
  "digit n = ''0123456789'' ! (n mod 10)"

definition strftime_ym :: "timestamp \<Rightarrow> string" where
  "strftime_ym t =
     (let y = nat (year_of t); m = nat (month_of t)
      in [digit (y div 1000), digit (y div 100), digit (y div 10), digit y, CHR ''-'',
          digit (m div 10), digit m])"

subsection \<open>\<open>load_inputs\<close>\<close>

text \<open>
  A row of the orders table as \<open>read_csv\<close> returns it, with order_date parsed. A missing
  customer_id or channel is \<open>None\<close>; a missing revenue is \<open>NaN\<close>.
\<close>

record raw_order =
  order_id :: string
  order_date :: timestamp
  customer_id :: "string option"
  channel :: "string option"
  revenue :: fl

record order_row = raw_order +
  order_month :: string

text \<open>
  The month column of the spend table as \<open>read_csv\<close> returns it. The reader gives the
  whole column one type: text (a cell may be missing), 64-bit integers, 64-bit floats
  (a missing cell is the float \<open>NaN\<close>) or booleans. A finite float is carried as the
  digits of its shortest decimal form, a sign, the integer part and one or more fraction
  digits, as in \<open>202301.0\<close>; this covers the floats that Python writes without an exponent
  (magnitude from \<open>1e-4\<close> up to \<open>1e16\<close>).
\<close>

datatype float_cell = FDec bool nat nat "nat list" | FInf bool | FNaN

datatype month_column =
    StrColumn "string option list"
  | IntColumn "int list"
  | FloatColumn "float_cell list"
  | BoolColumn "bool list"

text \<open>The spend table, column by column (the columns of a frame have one length).\<close>

record raw_spend =
  rs_month :: month_column
  rs_channel :: "string list"
  rs_spend :: "fl list"

record loaded_spend =
  ld_month :: "string option list"
  ld_channel :: "string list"
  ld_spend :: "fl list"

text \<open>Python's \<open>str\<close> of an integer, of a float and of a boolean.\<close>

fun str_nat :: "nat \<Rightarrow> string" where
  "str_nat n = (if n < 10 then [digit n] else str_nat (n div 10) @ [digit n])"

definition str_int :: "int \<Rightarrow> string" where
  "str_int i = (if i < 0 then CHR ''-'' # str_nat (nat (- i)) else str_nat (nat i))"

fun str_float :: "float_cell \<Rightarrow> string option" where
  "str_float (FDec neg i d ds) =
     Some ((if neg then [CHR ''-''] else []) @ str_nat i @ [CHR ''.''] @ map digit (d # ds))"
| "str_float (FInf neg) = Some (if neg then ''-inf'' else ''inf'')"
| "str_float FNaN = None"

definition str_bool :: "bool \<Rightarrow> string" where
  "str_bool b = (if b then ''True'' else ''False'')"

text \<open>
  \<open>Series.astype(str)\<close>: every cell that is present is replaced by its \<open>str\<close>, so a text
  cell is unchanged, and a missing cell stays missing (pandas 3; pandas 2 wrote the text
  \<open>nan\<close> for it).
\<close>

fun astype_str :: "month_column \<Rightarrow> string option list" where
  "astype_str (StrColumn ms) = ms"
| "astype_str (IntColumn ns) = map (\<lambda>i. Some (str_int i)) ns"
| "astype_str (FloatColumn xs) = map str_float xs"
| "astype_str (BoolColumn bs) = map (\<lambda>b. Some (str_bool b)) bs"

definition load_order :: "raw_order \<Rightarrow> order_row" where
  "load_order r = raw_order.extend r \<lparr>order_month = strftime_ym (order_date r)\<rparr>"

definition load_spend :: "raw_spend \<Rightarrow> loaded_spend" where
  "load_spend spend =
     \<lparr>ld_month = astype_str (rs_month spend), ld_channel = rs_channel spend,
      ld_spend = rs_spend spend\<rparr>"

text \<open>
  Both files are read first. An orders file without a row gives an order_date column that
  is not a datetime column, and \<open>orders["order_date"].dt\<close> raises AttributeError before
  the spend table is touched; otherwise order_month is added and then the month column of
  the spend table is converted.
\<close>

definition load_inputs ::
    "raw_order list \<Rightarrow> raw_spend \<Rightarrow> error + (order_row list \<times> loaded_spend)" where
  "load_inputs orders spend =
     (if orders = [] then Inl AttributeError
      else Inr (map load_order orders, load_spend spend))"

subsection \<open>\<open>build_mart_and_cohorts\<close>: the tables\<close>

text \<open>
  The SQL tables are lists of rows. The engine leaves the row order of a \<open>GROUP BY\<close>
  or a join without \<open>ORDER BY\<close> open; the lists below take the order of first
  appearance, and no property stated later depends on it.
\<close>

definition fact_orders :: "order_row list \<Rightarrow> order_row list" where
  "fact_orders orders = orders"

record first_order =
  fo_customer_id :: "string option"
  first_order_date :: timestamp
  fo_cohort_month :: string
  acquisition_channel :: "string option"

text \<open>\<open>MIN\<close> over the dates of a group, and \<open>ANY_VALUE\<close>: the first value that is not NULL.\<close>

definition min_ts :: "timestamp \<Rightarrow> timestamp \<Rightarrow> timestamp" where
  "min_ts a b = (if ts_le a b then a else b)"

definition any_value :: "'a option list \<Rightarrow> 'a option" where
  "any_value xs = (case filter (\<lambda>x. x \<noteq> None) xs of [] \<Rightarrow> None | x # _ \<Rightarrow> x)"

text \<open>
  \<open>first_orders\<close>: one row for each distinct customer_id of \<open>fact_orders\<close>; the rows
  without a customer_id form one group, as \<open>GROUP BY\<close> groups NULLs.
\<close>

definition first_orders :: "order_row list \<Rightarrow> first_order list" where
  "first_orders facts =
     concat (map (\<lambda>k.
       (case filter (\<lambda>f. customer_id f = k) facts of
          [] \<Rightarrow> []
        | f # fs \<Rightarrow>
            let d = foldl min_ts (order_date f) (map order_date fs)
            in [\<lparr>fo_customer_id = k, first_order_date = d, fo_cohort_month = strftime_ym d,
                 acquisition_channel = any_value (map channel (f # fs))\<rparr>]))
       (remdups (map customer_id facts)))"

record fct_row = order_row +
  fc_cohort_month :: string
  fc_acquisition_channel :: "string option"
  months_since_cohort :: int

text \<open>
  \<open>fct\<close>: the inner join \<open>USING (customer_id)\<close>; a NULL customer_id matches no row.
\<close>

definition fct :: "order_row list \<Rightarrow> first_order list \<Rightarrow> fct_row list" where
  "fct facts fos =
     concat (map (\<lambda>f.
       map (\<lambda>fo. order_row.extend f
              \<lparr>fc_cohort_month = fo_cohort_month fo,
               fc_acquisition_channel = acquisition_channel fo,
               months_since_cohort =
                 date_diff_month (date_trunc_month (first_order_date fo))
                                 (date_trunc_month (order_date f))\<rparr>)
           (filter (\<lambda>fo. customer_id f \<noteq> None \<and> fo_customer_id fo = customer_id f) fos))
       facts)"

text \<open>
  \<open>SUM\<close> skips NULLs and is NULL for a group without a value; a NULL of a float
  column is \<open>NaN\<close> on both sides of the engine.
\<close>

definition sql_sum :: "fl list \<Rightarrow> fl" where
  "sql_sum xs = (case filter (\<lambda>x. x \<noteq> NaN) xs of [] \<Rightarrow> NaN | y # ys \<Rightarrow> foldl fadd y ys)"

definition fct_key :: "fct_row \<Rightarrow> string \<times> int" where
  "fct_key r = (fc_cohort_month r, months_since_cohort r)"

definition sql_cohort_rev :: "fct_row list \<Rightarrow> rev_row list" where
  "sql_cohort_rev rows =
     map (\<lambda>(c, k). \<lparr>rv_cohort_month = c, rv_months_since_cohort = k,
                     rv_revenue = sql_sum (map revenue (filter (\<lambda>r. fct_key r = (c, k)) rows))\<rparr>)
         (sort (remdups (map fct_key rows)))"

text \<open>\<open>COUNT(DISTINCT customer_id)\<close> counts the distinct values that are not NULL.\<close>

definition count_distinct :: "'a option list \<Rightarrow> int" where
  "count_distinct xs = int (length (remdups (filter (\<lambda>x. x \<noteq> None) xs)))"

definition sql_acq_counts :: "first_order list \<Rightarrow> acq_row list" where
  "sql_acq_counts fos =
     map (\<lambda>m. \<lparr>aq_cohort_month = m,
                aq_new_customers =
                  count_distinct (map fo_customer_id (filter (\<lambda>fo. fo_cohort_month fo = m) fos))\<rparr>)
         (sort (remdups (map fo_cohort_month fos)))"

subsection \<open>\<open>build_mart_and_cohorts\<close>: CAC\<close>

text \<open>
  The spend frame that \<open>build_mart_and_cohorts\<close> receives, row by row, with the columns
  month (text), channel and spend. Its rows carry a month: \<open>groupby("month")\<close> leaves out
  a row whose month is missing.
\<close>

record spend_row =
  sp_month :: string
  sp_channel :: string
  sp_spend :: fl

text \<open>
  \<open>spend.groupby("month", as_index=False)["spend"].sum()\<close>: one row for each month, in
  ascending order; the sum skips \<open>NaN\<close> and is 0 for a group without a value.
\<close>

definition nansum :: "fl list \<Rightarrow> fl" where
  "nansum xs = foldl fadd (Fin 0) (filter (\<lambda>x. x \<noteq> NaN) xs)"

definition spend_by_month :: "spend_row list \<Rightarrow> (string \<times> fl) list" where
  "spend_by_month spend =
     map (\<lambda>m. (m, nansum (map sp_spend (filter (\<lambda>r. sp_month r = m) spend))))
         (sort (remdups (map sp_month spend)))"

record cac_row = acq_row +
  cc_spend_total :: fl
  cc_CAC :: fl

text \<open>
  \<open>acq_counts.merge(spend_by_month, on="cohort_month", how="left")\<close>, then
  \<open>fillna({"spend_total": 0})\<close> and
  \<open>cac["CAC"] = cac["spend_total"] / cac["new_customers"].replace(0, np.nan)\<close>.
\<close>

definition merge_left_spend :: "acq_row list \<Rightarrow> (string \<times> fl) list \<Rightarrow> (acq_row \<times> fl) list" where
  "merge_left_spend acq sbm =
     concat (map (\<lambda>a.
       (case filter (\<lambda>(m, s). m = aq_cohort_month a) sbm of
          [] \<Rightarrow> [(a, NaN)]
        | ms \<Rightarrow> map (\<lambda>(m, s). (a, s)) ms)) acq)"

definition cac_frame :: "acq_row list \<Rightarrow> spend_row list \<Rightarrow> cac_row list" where
  "cac_frame acq spend =
     map (\<lambda>(a, s). acq_row.extend a
            \<lparr>cc_spend_total = fillna_0 s,
             cc_CAC = fdiv (fillna_0 s) (replace_0_nan (Fin (of_int (aq_new_customers a))))\<rparr>)
         (merge_left_spend acq (spend_by_month spend))"

definition build_mart_and_cohorts ::
  "order_row list \<Rightarrow> spend_row list \<Rightarrow> rev_row list \<times> acq_row list \<times> cac_row list" where
  "build_mart_and_cohorts orders spend =
     (let facts = fact_orders orders;
          fos = first_orders facts;
          acq = sql_acq_counts fos
      in (sql_cohort_rev (fct facts fos), acq, cac_frame acq spend))"

subsection \<open>\<open>ltv_tables\<close>\<close>

text \<open>
  \<open>cohort_rev.merge(acq_counts, on="cohort_month", how="left")\<close>: the rows of the left
  frame in order, each paired with every matching row of the right frame; a left row
  without a match is kept once, with \<open>NaN\<close> in the right frame's column (which makes the
  column float64).
\<close>

definition merge_left_acq :: "rev_row list \<Rightarrow> acq_row list \<Rightarrow> (rev_row \<times> fl) list" where
  "merge_left_acq cohort_rev acq_counts =
     concat (map (\<lambda>r.
       (case filter (\<lambda>a. aq_cohort_month a = rv_cohort_month r) acq_counts of
          [] \<Rightarrow> [(r, NaN)]
        | ms \<Rightarrow> map (\<lambda>a. (r, Fin (of_int (aq_new_customers a)))) ms)) cohort_rev)"

text \<open>\<open>ltv["ltv"] = ltv["revenue"] / ltv["new_customers"].replace(0, np.nan)\<close>\<close>

definition ltv_frame :: "rev_row list \<Rightarrow> acq_row list \<Rightarrow> ltv_row list" where
  "ltv_frame cohort_rev acq_counts =
     map (\<lambda>(r, n). rev_row.extend r
            \<lparr>lt_new_customers = n, lt_ltv = fdiv (rv_revenue r) (replace_0_nan n)\<rparr>)
         (merge_left_acq cohort_rev acq_counts)"

definition ltv_key :: "ltv_row \<Rightarrow> string \<times> int" where
  "ltv_key r = (rv_cohort_month r, rv_months_since_cohort r)"

text \<open>
  \<open>ltv.pivot(index="cohort_month", columns="months_since_cohort", values="ltv")\<close>: raises
  ValueError when two rows share their (index, column) pair; otherwise the labels are the
  sorted distinct values of the two key columns and a cell without a row is \<open>NaN\<close>.
\<close>

definition pivot :: "ltv_row list \<Rightarrow> error + grid" where
  "pivot ltv =
     (if \<not> distinct (map ltv_key ltv) then Inl ValueError
      else
        let idx = sort (remdups (map rv_cohort_month ltv));
            cols = sort (remdups (map rv_months_since_cohort ltv))
        in Inr \<lparr>index = idx, columns = cols,
                cells = map (\<lambda>c. map (\<lambda>k.
                  (case map_of (map (\<lambda>r. (ltv_key r, lt_ltv r)) ltv) (c, k) of
                     None \<Rightarrow> NaN
                   | Some v \<Rightarrow> v)) cols) idx\<rparr>)"

definition fillna_grid :: "grid \<Rightarrow> grid" where
  "fillna_grid g = g\<lparr>cells := map (map fillna_0) (cells g)\<rparr>"

text \<open>\<open>sort_index()\<close>: the rows ordered by their label.\<close>

definition sort_index :: "grid \<Rightarrow> grid" where
  "sort_index g =
     (let rows = sort_key fst (zip (index g) (cells g))
      in g\<lparr>index := map fst rows, cells := map snd rows\<rparr>)"

text \<open>
  \<open>cumsum(axis=1)\<close> with pandas' default \<open>skipna=True\<close>: the \<open>NaN\<close> cells are set to 0,
  the running sum is taken from left to right, and the cells that were \<open>NaN\<close> are set
  back to \<open>NaN\<close>.
\<close>

fun running_sum :: "fl \<Rightarrow> fl list \<Rightarrow> fl list" where
  "running_sum acc [] = []"
| "running_sum acc (x # xs) = fadd acc x # running_sum (fadd acc x) xs"

definition cumsum_row :: "fl list \<Rightarrow> fl list" where
  "cumsum_row xs =
     map (\<lambda>(x, s). if x = NaN then NaN else s)
         (zip xs (running_sum (Fin 0) (map fillna_0 xs)))"

definition cumsum_axis1 :: "grid \<Rightarrow> grid" where
  "cumsum_axis1 g = g\<lparr>cells := map cumsum_row (cells g)\<rparr>"

definition ltv_pivot :: "rev_row list \<Rightarrow> acq_row list \<Rightarrow> error + grid" where
  "ltv_pivot cohort_rev acq_counts =
     (case pivot (ltv_frame cohort_rev acq_counts) of
        Inl e \<Rightarrow> Inl e
      | Inr g \<Rightarrow> Inr (sort_index (fillna_grid g)))"

definition ltv_tables :: "rev_row list \<Rightarrow> acq_row list \<Rightarrow> error + grid" where
  "ltv_tables cohort_rev acq_counts =
     (case ltv_pivot cohort_rev acq_counts of
        Inl e \<Rightarrow> Inl e
      | Inr g \<Rightarrow> Inr (cumsum_axis1 g))"

subsection \<open>\<open>export_excel\<close>: the summary\<close>

record summary_row =
  sm_cohort_month :: string
  sm_LTV_latest :: fl
  sm_CAC :: fl
  sm_LTV_to_CAC :: fl

text \<open>\<open>latest = ltv_cum.columns.max() if len(ltv_cum.columns) else 0\<close>\<close>

definition latest_column :: "grid \<Rightarrow> int" where
  "latest_column g = (case columns g of [] \<Rightarrow> 0 | k # ks \<Rightarrow> foldl max k ks)"

text \<open>
  \<open>ltv_cum[[latest]].rename(...).reset_index()\<close>: KeyError when no column has the label;
  otherwise one (cohort_month, LTV_latest) pair for each row of the grid. (Every row of a
  frame has a cell for each column, so the lookup inside a row finds one.)
\<close>

definition select_column :: "grid \<Rightarrow> int \<Rightarrow> error + (string \<times> fl) list" where
  "select_column g k =
     (if k \<notin> set (columns g) then Inl KeyError
      else Inr (map (\<lambda>(c, row). (c, (case map_of (zip (columns g) row) k of
                                          None \<Rightarrow> NaN | Some v \<Rightarrow> v)))
                    (zip (index g) (cells g))))"

text \<open>
  \<open>summary.merge(cac_df[["cohort_month", "CAC"]], on="cohort_month", how="left")\<close> and
  \<open>summary["LTV_to_CAC"] = summary["LTV_latest"] / summary["CAC"]\<close>.
\<close>

definition merge_left_cac :: "(string \<times> fl) list \<Rightarrow> cac_row list \<Rightarrow> (string \<times> fl \<times> fl) list" where
  "merge_left_cac summary cac_df =
     concat (map (\<lambda>(c, l).
       (case filter (\<lambda>r. aq_cohort_month r = c) cac_df of
          [] \<Rightarrow> [(c, l, NaN)]
        | ms \<Rightarrow> map (\<lambda>r. (c, l, cc_CAC r)) ms)) summary)"

text \<open>
  The writing of the two sheets is followed by the sizing of their columns, for the frames
  \<open>ltv_cum.reset_index()\<close> and \<open>summary\<close>: the width of a column is computed with
  \<open>int(df[col].astype(str).str.len().quantile(0.9))\<close>. \<open>astype(str)\<close> keeps a missing cell
  missing (pandas 3), the quantile of the text lengths skips the missing cells and is
  \<open>NaN\<close> when no cell is left, and \<open>int\<close> of \<open>NaN\<close> raises ValueError. So the sizing
  raises when a column has no cell that is present, and always for a frame without a row.
  The cohort_month column is text and has no missing cell.
\<close>

definition sizable :: "fl list \<Rightarrow> bool" where
  "sizable col = list_ex (\<lambda>x. x \<noteq> NaN) col"

definition grid_column :: "grid \<Rightarrow> int \<Rightarrow> fl list" where
  "grid_column g k =
     map (\<lambda>row. (case map_of (zip (columns g) row) k of None \<Rightarrow> NaN | Some v \<Rightarrow> v)) (cells g)"

definition autosize :: "grid \<Rightarrow> summary_row list \<Rightarrow> bool" where
  "autosize ltv_cum summary =
     (index ltv_cum \<noteq> []
      \<and> list_all (\<lambda>k. sizable (grid_column ltv_cum k)) (columns ltv_cum)
      \<and> summary \<noteq> []
      \<and> sizable (map sm_LTV_latest summary)
      \<and> sizable (map sm_CAC summary)
      \<and> sizable (map sm_LTV_to_CAC summary))"

text \<open>
  \<open>export_excel\<close> returns the summary; the files it writes are not represented. The
  errors are the KeyError of the column selection and the ValueError of the sizing.
\<close>

definition export_excel :: "grid \<Rightarrow> cac_row list \<Rightarrow> error + summary_row list" where
  "export_excel ltv_cum cac_df =
     (case select_column ltv_cum (latest_column ltv_cum) of
        Inl e \<Rightarrow> Inl e
      | Inr selected \<Rightarrow>
          let summary = map (\<lambda>(c, l, a). \<lparr>sm_cohort_month = c, sm_LTV_latest = l, sm_CAC = a,
                                           sm_LTV_to_CAC = fdiv l a\<rparr>)
                            (merge_left_cac selected cac_df)
          in if autosize ltv_cum summary then Inr summary else Inl ValueError)"

subsection \<open>Notions used to state the properties of \<open>ltv_tables\<close>\<close>

text \<open>
  The key of a row of \<open>cohort_rev\<close>, the labels of the pivot, and the value the source
  gives to one cell of \<open>ltv_pivot\<close>: 0 where \<open>cohort_rev\<close> has no row for the pair, and
  otherwise the row's revenue divided by the cohort's new_customers (with 0 replaced by
  \<open>NaN\<close>, and a cohort without a row in \<open>acq_counts\<close> read as \<open>NaN\<close>), a \<open>NaN\<close>
  quotient being filled with 0.
\<close>

definition rev_key :: "rev_row \<Rightarrow> string \<times> int" where
  "rev_key r = (rv_cohort_month r, rv_months_since_cohort r)"

definition cohort_labels :: "rev_row list \<Rightarrow> string list" where
  "cohort_labels cr = sort (remdups (map rv_cohort_month cr))"

definition offset_labels :: "rev_row list \<Rightarrow> int list" where
  "offset_labels cr = sort (remdups (map rv_months_since_cohort cr))"

definition size_cell :: "acq_row list \<Rightarrow> string \<Rightarrow> fl" where
  "size_cell acq c =
     (case find (\<lambda>a. aq_cohort_month a = c) acq of
        None \<Rightarrow> NaN
      | Some a \<Rightarrow> Fin (of_int (aq_new_customers a)))"

definition ltv_cell :: "rev_row list \<Rightarrow> acq_row list \<Rightarrow> string \<Rightarrow> int \<Rightarrow> fl" where
  "ltv_cell cr acq c k =
     (case find (\<lambda>r. rev_key r = (c, k)) cr of
        None \<Rightarrow> Fin 0
      | Some r \<Rightarrow> fillna_0 (fdiv (rv_revenue r) (replace_0_nan (size_cell acq c))))"

text \<open>
  The words of the specification: the revenue recorded for a (cohort, offset) pair, the
  size of a cohort, the per-customer revenue of a pair (0 for a pair without a row), and
  the sum of a list of cells taken from left to right.
\<close>

definition revenue_at :: "rev_row list \<Rightarrow> string \<Rightarrow> int \<Rightarrow> fl option" where
  "revenue_at cr c k = map_option rv_revenue (find (\<lambda>r. rev_key r = (c, k)) cr)"

definition cohort_size :: "acq_row list \<Rightarrow> string \<Rightarrow> int option" where
  "cohort_size acq c = map_option aq_new_customers (find (\<lambda>a. aq_cohort_month a = c) acq)"

definition per_customer :: "rev_row list \<Rightarrow> int \<Rightarrow> string \<Rightarrow> int \<Rightarrow> fl" where
  "per_customer cr n c j =
     (case revenue_at cr c j of None \<Rightarrow> Fin 0 | Some r \<Rightarrow> fdiv r (Fin (of_int n)))"

definition fsum :: "fl list \<Rightarrow> fl" where
  "fsum xs = foldl fadd (Fin 0) xs"

definition fl_nonneg :: "fl \<Rightarrow> bool" where
  "fl_nonneg x = fle (Fin 0) x"

subsection \<open>Example frames\<close>

text \<open>The frames of tests/test\_ltv.py, and two variations of them.\<close>

definition test_cohort_rev :: "rev_row list" where
  "test_cohort_rev =
     [\<lparr>rv_cohort_month = ''2023-01'', rv_months_since_cohort = 0, rv_revenue = Fin 100\<rparr>,
      \<lparr>rv_cohort_month = ''2023-01'', rv_months_since_cohort = 1, rv_revenue = Fin 50\<rparr>]"

definition test_acq :: "acq_row list" where
  "test_acq = [\<lparr>aq_cohort_month = ''2023-01'', aq_new_customers = 10\<rparr>]"

definition demo_cohort_rev :: "rev_row list" where
  "demo_cohort_rev =
     [\<lparr>rv_cohort_month = ''2023-01'', rv_months_since_cohort = 0, rv_revenue = Fin 100\<rparr>,
      \<lparr>rv_cohort_month = ''2023-01'', rv_months_since_cohort = 1, rv_revenue = Fin 50\<rparr>,
      \<lparr>rv_cohort_month = ''2023-02'', rv_months_since_cohort = 0, rv_revenue = Fin 30\<rparr>]"

definition demo_acq :: "acq_row list" where
  "demo_acq = [\<lparr>aq_cohort_month = ''2023-01'', aq_new_customers = 10\<rparr>,
               \<lparr>aq_cohort_month = ''2023-02'', aq_new_customers = 3\<rparr>]"

definition orphan_cohort_rev :: "rev_row list" where
  "orphan_cohort_rev =
     [\<lparr>rv_cohort_month = ''2023-01'', rv_months_since_cohort = 0, rv_revenue = Fin 100\<rparr>,
      \<lparr>rv_cohort_month = ''2023-03'', rv_months_since_cohort = 2, rv_revenue = Fin 40\<rparr>]"

subsection \<open>Notions used to state the properties of the CAC table and of the loader\<close>

text \<open>
  The spend of a month summed over all channels, as \<open>spend_by_month\<close> sums it (0 for a
  month without a row).
\<close>

definition month_spend :: "spend_row list \<Rightarrow> string \<Rightarrow> fl" where
  "month_spend spend m = nansum (map sp_spend (filter (\<lambda>r. sp_month r = m) spend))"

text \<open>The canonical form of a month: four digits, a dash, and a month number 01..12.\<close>

definition is_digit :: "char \<Rightarrow> bool" where
  "is_digit c = (c \<in> set ''0123456789'')"

definition is_yyyy_mm :: "string \<Rightarrow> bool" where
  "is_yyyy_mm s =
     (case s of
        [y1, y2, y3, y4, d, m1, m2] \<Rightarrow>
          is_digit y1 \<and> is_digit y2 \<and> is_digit y3 \<and> is_digit y4 \<and> d = CHR ''-''
          \<and> [m1, m2] \<in> set [''01'', ''02'', ''03'', ''04'', ''05'', ''06'',
                              ''07'', ''08'', ''09'', ''10'', ''11'', ''12'']
      | _ \<Rightarrow> False)"

text \<open>Example frames.\<close>

definition demo_sizes :: "acq_row list" where
  "demo_sizes = [\<lparr>aq_cohort_month = ''2023-01'', aq_new_customers = 10\<rparr>,
                 \<lparr>aq_cohort_month = ''2023-02'', aq_new_customers = 0\<rparr>,
                 \<lparr>aq_cohort_month = ''2023-03'', aq_new_customers = 4\<rparr>]"

definition demo_spend :: "spend_row list" where
  "demo_spend = [\<lparr>sp_month = ''2023-01'', sp_channel = ''ads'', sp_spend = Fin 200\<rparr>,
                 \<lparr>sp_month = ''2023-01'', sp_channel = ''seo'', sp_spend = Fin 50\<rparr>,
                 \<lparr>sp_month = ''2023-02'', sp_channel = ''ads'', sp_spend = Fin 70\<rparr>,
                 \<lparr>sp_month = ''2022-12'', sp_channel = ''ads'', sp_spend = Fin 5\<rparr>]"

subsection \<open>Notions used to state the properties of the SQL tables\<close>

text \<open>
  The number of whole calendar months from the month of \<open>a\<close> to the month of \<open>b\<close>.
\<close>

definition months_between :: "timestamp \<Rightarrow> timestamp \<Rightarrow> int" where
  "months_between a b = month_no b - month_no a"

text \<open>
  Example orders: customer c1 orders in January and in March 2023, customer c2 in
  February 2023, and one February order has no customer_id (month 24276 is January 2023).
\<close>

definition demo_raw_orders :: "raw_order list" where
  "demo_raw_orders =
     [\<lparr>order_id = ''o1'', order_date = \<lparr>month_no = 24276, in_month = 5\<rparr>,
       customer_id = Some ''c1'', channel = Some ''ads'', revenue = Fin 100\<rparr>,
      \<lparr>order_id = ''o2'', order_date = \<lparr>month_no = 24278, in_month = 0\<rparr>,
       customer_id = Some ''c1'', channel = None, revenue = Fin 50\<rparr>,
      \<lparr>order_id = ''o3'', order_date = \<lparr>month_no = 24277, in_month = 9\<rparr>,
       customer_id = Some ''c2'', channel = Some ''seo'', revenue = Fin 30\<rparr>,
      \<lparr>order_id = ''o4'', order_date = \<lparr>month_no = 24277, in_month = 1\<rparr>,
       customer_id = None, channel = Some ''seo'', revenue = Fin 7\<rparr>]"

definition demo_orders :: "order_row list" where
  "demo_orders = map load_order demo_raw_orders"

subsection \<open>Notions used to state the properties of the loader\<close>

text \<open>A cell of the loaded month column is canonical when it is present and a YYYY-MM text.\<close>

definition is_canonical :: "string option \<Rightarrow> bool" where
  "is_canonical m = (case m of None \<Rightarrow> False | Some t \<Rightarrow> is_yyyy_mm t)"

text \<open>
  Example spend tables: months written as dates, months written as numbers (read as an
  integer column), and months written in the canonical form.
\<close>

definition dated_spend :: raw_spend where
  "dated_spend = \<lparr>rs_month = StrColumn [Some ''2023-01-15'', Some ''2023-02-15''],
                   rs_channel = [''ads'', ''ads''], rs_spend = [Fin 200, Fin 100]\<rparr>"

definition numbered_spend :: raw_spend where
  "numbered_spend = \<lparr>rs_month = IntColumn [202301, 202302],
                      rs_channel = [''ads'', ''ads''], rs_spend = [Fin 200, Fin 100]\<rparr>"

definition canonical_spend :: raw_spend where
  "canonical_spend = \<lparr>rs_month = StrColumn [Some ''2023-01'', Some ''2023-02''],
                       rs_channel = [''ads'', ''ads''], rs_spend = [Fin 200, Fin 100]\<rparr>"

subsection \<open>Example frames for the summary of \<open>export_excel\<close>\<close>

text \<open>
  Two cohorts: 2023-01 with 10 new customers, revenue 100 and 50 at the offsets 0 and 1
  and a spend of 250; and 2023-02 with 4 new customers, revenue 20 at the offset 0 and no
  spend row at all.
\<close>

definition unfunded_cohort_rev :: "rev_row list" where
  "unfunded_cohort_rev =
     [\<lparr>rv_cohort_month = ''2023-01'', rv_months_since_cohort = 0, rv_revenue = Fin 100\<rparr>,
      \<lparr>rv_cohort_month = ''2023-01'', rv_months_since_cohort = 1, rv_revenue = Fin 50\<rparr>,
      \<lparr>rv_cohort_month = ''2023-02'', rv_months_since_cohort = 0, rv_revenue = Fin 20\<rparr>]"

definition unfunded_acq :: "acq_row list" where
  "unfunded_acq = [\<lparr>aq_cohort_month = ''2023-01'', aq_new_customers = 10\<rparr>,
                   \<lparr>aq_cohort_month = ''2023-02'', aq_new_customers = 4\<rparr>]"

definition unfunded_spend :: "spend_row list" where
  "unfunded_spend = [\<lparr>sp_month = ''2023-01'', sp_channel = ''ads'', sp_spend = Fin 250\<rparr>]"

definition unfunded_ltv_cum :: grid where
  "unfunded_ltv_cum = \<lparr>index = [''2023-01'', ''2023-02''], columns = [0, 1],
                        cells = [[Fin 10, Fin 15], [Fin 5, Fin 5]]\<rparr>"

definition unfunded_summary :: "summary_row list" where
  "unfunded_summary =
     [\<lparr>sm_cohort_month = ''2023-01'', sm_LTV_latest = Fin 15, sm_CAC = Fin 25,
       sm_LTV_to_CAC = Fin (3 / 5)\<rparr>,
      \<lparr>sm_cohort_month = ''2023-02'', sm_LTV_latest = Fin 5, sm_CAC = Fin 0,
       sm_LTV_to_CAC = PInf\<rparr>]"

section \<open>Properties of \<open>ltv_tables\<close>\<close>

lemma filter_distinct_key:
  "distinct (map f xs) \<Longrightarrow>
   filter (\<lambda>a. f a = k) xs = (case find (\<lambda>a. f a = k) xs of None \<Rightarrow> [] | Some a \<Rightarrow> [a])"
proof (induction xs)
  case Nil
  then show ?case by simp
next
  case (Cons x xs)
  show ?case
  proof (cases "f x = k")
    case True
    from Cons.prems have "f x \<notin> f ` set xs" by simp
    then have "\<forall>a\<in>set xs. f a \<noteq> f x" by (metis imageI)
    with True have "\<forall>a\<in>set xs. f a \<noteq> k" by simp
    then have "filter (\<lambda>a. f a = k) xs = []" by (simp add: filter_empty_conv)
    with True show ?thesis by simp
  next
    case False
    with Cons show ?thesis by simp
  qed
qed

lemma merge_left_acq_distinct:
  assumes "distinct (map aq_cohort_month acq)"
  shows "merge_left_acq cr acq = map (\<lambda>r. (r, size_cell acq (rv_cohort_month r))) cr"
proof -
  have eq: "(\<lambda>r. case filter (\<lambda>a. aq_cohort_month a = rv_cohort_month r) acq of
          [] \<Rightarrow> [(r, NaN)]
        | ms \<Rightarrow> map (\<lambda>a. (r, Fin (of_int (aq_new_customers a)))) ms)
        = (\<lambda>r. [(r, size_cell acq (rv_cohort_month r))])"
    by (rule ext) (simp add: filter_distinct_key [OF assms] size_cell_def split: option.splits)
  show ?thesis
    unfolding merge_left_acq_def eq by (induction cr) simp_all
qed

lemma ltv_frame_keys:
  assumes "distinct (map aq_cohort_month acq)"
  shows "map ltv_key (ltv_frame cr acq) = map rev_key cr"
    and "map rv_cohort_month (ltv_frame cr acq) = map rv_cohort_month cr"
    and "map rv_months_since_cohort (ltv_frame cr acq) = map rv_months_since_cohort cr"
  by (simp_all add: ltv_frame_def merge_left_acq_distinct [OF assms] ltv_key_def rev_key_def
      rev_row.extend_def comp_def)

lemma ltv_frame_lookup:
  assumes "distinct (map aq_cohort_month acq)"
  shows "fillna_0 (case map_of (map (\<lambda>r. (ltv_key r, lt_ltv r)) (ltv_frame cr acq)) (c, k) of
           None \<Rightarrow> NaN | Some v \<Rightarrow> v) = ltv_cell cr acq c k"
proof -
  have "map_of (map (\<lambda>r. (ltv_key r, lt_ltv r)) (ltv_frame cr acq)) (c, k)
        = map_option (\<lambda>r. fdiv (rv_revenue r) (replace_0_nan (size_cell acq c)))
            (find (\<lambda>r. rev_key r = (c, k)) cr)"
    by (induction cr)
       (auto simp add: ltv_frame_def merge_left_acq_distinct [OF assms] ltv_key_def rev_key_def
          rev_row.extend_def)
  then show ?thesis
    by (simp add: ltv_cell_def fillna_0_def split: option.splits)
qed

lemma running_sum_length [simp]: "length (running_sum acc xs) = length xs"
  by (induction xs arbitrary: acc) simp_all

lemma unmask_no_nan:
  "length xs = length ys \<Longrightarrow> NaN \<notin> set xs \<Longrightarrow>
   map (\<lambda>(x, s). if x = NaN then NaN else s) (zip xs ys) = ys"
  by (induction xs ys rule: list_induct2) auto

lemma cumsum_row_no_nan:
  assumes "NaN \<notin> set xs"
  shows "cumsum_row xs = running_sum (Fin 0) xs"
proof -
  from assms have "map fillna_0 xs = xs"
    by (induction xs) (auto simp: fillna_0_def)
  then show ?thesis
    by (simp add: cumsum_row_def unmask_no_nan [OF _ assms])
qed

lemma ltv_cell_not_nan: "ltv_cell cr acq c k \<noteq> NaN"
  by (simp add: ltv_cell_def fillna_0_def split: option.splits)

lemma sort_index_sorted:
  assumes "sorted (index g)" "length (cells g) = length (index g)"
  shows "sort_index g = g"
proof -
  from assms have "sorted (map fst (zip (index g) (cells g)))" by simp
  then have "sort_key fst (zip (index g) (cells g)) = zip (index g) (cells g)"
    by (rule sort_key_id_if_sorted)
  with assms(2) show ?thesis by (simp add: sort_index_def)
qed

lemma ltv_pivot_eq:
  assumes "distinct (map rev_key cr)" "distinct (map aq_cohort_month acq)"
  shows "ltv_pivot cr acq =
     Inr \<lparr>index = cohort_labels cr, columns = offset_labels cr,
          cells = map (\<lambda>c. map (ltv_cell cr acq c) (offset_labels cr)) (cohort_labels cr)\<rparr>"
proof -
  let ?g = "\<lparr>index = cohort_labels cr, columns = offset_labels cr,
          cells = map (\<lambda>c. map (ltv_cell cr acq c) (offset_labels cr)) (cohort_labels cr)\<rparr>"
  have s: "sort_index ?g = ?g"
    by (rule sort_index_sorted) (simp_all add: cohort_labels_def)
  have p: "pivot (ltv_frame cr acq) =
     Inr \<lparr>index = cohort_labels cr, columns = offset_labels cr,
          cells = map (\<lambda>c. map (\<lambda>k.
             (case map_of (map (\<lambda>r. (ltv_key r, lt_ltv r)) (ltv_frame cr acq)) (c, k) of
                None \<Rightarrow> NaN | Some v \<Rightarrow> v)) (offset_labels cr)) (cohort_labels cr)\<rparr>"
    using assms(1)
    by (simp add: pivot_def Let_def ltv_frame_keys [OF assms(2)] cohort_labels_def
        offset_labels_def)
  show ?thesis
    by (simp add: ltv_pivot_def p fillna_grid_def comp_def ltv_frame_lookup [OF assms(2)] s)
qed

lemma ltv_tables_eq:
  assumes "distinct (map rev_key cr)" "distinct (map aq_cohort_month acq)"
  shows "ltv_tables cr acq =
     Inr \<lparr>index = cohort_labels cr, columns = offset_labels cr,
          cells = map (\<lambda>c. running_sum (Fin 0) (map (ltv_cell cr acq c) (offset_labels cr)))
                    (cohort_labels cr)\<rparr>"
proof -
  have "\<And>c. cumsum_row (map (ltv_cell cr acq c) (offset_labels cr))
          = running_sum (Fin 0) (map (ltv_cell cr acq c) (offset_labels cr))"
    by (rule cumsum_row_no_nan) (auto simp: ltv_cell_not_nan [symmetric])
  then show ?thesis
    by (simp add: ltv_tables_def ltv_pivot_eq [OF assms] cumsum_axis1_def comp_def)
qed

lemma map_of_zip_running_sum:
  "sorted ks \<Longrightarrow> distinct ks \<Longrightarrow> k \<in> set ks \<Longrightarrow>
   map_of (zip ks (running_sum acc (map f ks))) k
     = Some (foldl fadd acc (map f (filter (\<lambda>j. j \<le> k) ks)))"
proof (induction ks arbitrary: acc)
  case Nil
  then show ?case by simp
next
  case (Cons x xs)
  show ?case
  proof (cases "k = x")
    case True
    from Cons.prems have "\<forall>j\<in>set xs. \<not> j \<le> x" by auto
    then have "filter (\<lambda>j. j \<le> x) xs = []" by (simp add: filter_empty_conv)
    with True show ?thesis by simp
  next
    case False
    with Cons.prems have kin: "k \<in> set xs" and "x \<le> k" by auto
    with Cons.prems Cons.IH [OF _ _ kin, of "fadd acc (f x)"] False show ?thesis
      by simp
  qed
qed

lemma loc_grid:
  assumes "distinct idx" "c \<in> set idx"
  shows "loc \<lparr>index = idx, columns = cols, cells = map F idx\<rparr> c k = map_of (zip cols (F c)) k"
  using assms by (simp add: loc_def map_of_zip_map)

lemma labels_props:
  "set (offset_labels cr) = rv_months_since_cohort ` set cr"
  "sorted (offset_labels cr)" "distinct (offset_labels cr)"
  "set (cohort_labels cr) = rv_cohort_month ` set cr"
  "sorted (cohort_labels cr)" "distinct (cohort_labels cr)"
  by (simp_all add: offset_labels_def cohort_labels_def)

lemma loc_ltv_pivot:
  assumes "c \<in> set (cohort_labels cr)" "k \<in> set (offset_labels cr)"
  shows "loc \<lparr>index = cohort_labels cr, columns = offset_labels cr,
          cells = map (\<lambda>c. map (ltv_cell cr acq c) (offset_labels cr)) (cohort_labels cr)\<rparr> c k
         = Some (ltv_cell cr acq c k)"
  using assms by (simp add: loc_grid labels_props map_of_zip_map)

lemma loc_ltv_tables:
  assumes "c \<in> set (cohort_labels cr)" "k \<in> set (offset_labels cr)"
  shows "loc \<lparr>index = cohort_labels cr, columns = offset_labels cr,
          cells = map (\<lambda>c. running_sum (Fin 0) (map (ltv_cell cr acq c) (offset_labels cr)))
                    (cohort_labels cr)\<rparr> c k
         = Some (fsum (map (ltv_cell cr acq c) (filter (\<lambda>j. j \<le> k) (offset_labels cr))))"
  using assms by (simp add: loc_grid labels_props map_of_zip_running_sum fsum_def)

lemma ltv_cell_no_row:
  "revenue_at cr c k = None \<Longrightarrow> ltv_cell cr acq c k = Fin 0"
  by (simp add: revenue_at_def ltv_cell_def)

lemma fdiv_not_nan:
  "r \<noteq> NaN \<Longrightarrow> n \<noteq> 0 \<Longrightarrow> fdiv r (Fin n) \<noteq> NaN"
  by (cases r) auto

lemma ltv_cell_per_customer:
  assumes "cohort_size acq c = Some n" "n \<noteq> 0" "revenue_at cr c k \<noteq> Some NaN"
  shows "ltv_cell cr acq c k = per_customer cr n c k"
proof (cases "find (\<lambda>r. rev_key r = (c, k)) cr")
  case None
  then show ?thesis by (simp add: ltv_cell_def per_customer_def revenue_at_def)
next
  case (Some r)
  from assms(1) have sz: "size_cell acq c = Fin (of_int n)"
    by (auto simp: cohort_size_def size_cell_def split: option.splits)
  from assms(3) Some have "rv_revenue r \<noteq> NaN" by (simp add: revenue_at_def)
  with assms(2) have "fdiv (rv_revenue r) (Fin (of_int n)) \<noteq> NaN"
    by (simp add: fdiv_not_nan)
  with Some sz assms(2) show ?thesis
    by (simp add: ltv_cell_def per_customer_def revenue_at_def replace_0_nan_def fillna_0_def)
qed

text \<open>
  C1. For frames keyed as the data model says (one row per (cohort_month, offset) in
  \<open>cohort_rev\<close>, one row per cohort_month in \<open>acq_counts\<close>), \<open>ltv_tables\<close> returns a
  grid whose columns are the offsets observed in any cohort, in ascending order and each
  once; a cell whose (cohort_month, offset) pair has no row in \<open>cohort_rev\<close> holds 0 in
  \<open>ltv_pivot\<close>, the grid before accumulation; and for a cohort with a nonzero size and
  numeric revenues the value at offset \<open>k\<close> is the sum, over the columns \<open>j \<le> k\<close> from
  left to right, of revenue(cohort, j) / new_customers(cohort).
\<close>

theorem ltv_tables_dense_running_sum:
  assumes "distinct (map rev_key cr)" and "distinct (map aq_cohort_month acq)"
  shows "\<exists>p g. ltv_pivot cr acq = Inr p \<and> ltv_tables cr acq = Inr g
    \<and> columns g = sorted_list_of_set (rv_months_since_cohort ` set cr)
    \<and> index g = sorted_list_of_set (rv_cohort_month ` set cr)
    \<and> (\<forall>c\<in>set (index g). \<forall>k\<in>set (columns g).
          revenue_at cr c k = None \<longrightarrow> loc p c k = Some (Fin 0))
    \<and> (\<forall>c\<in>set (index g). \<forall>k\<in>set (columns g). \<forall>n.
          cohort_size acq c = Some n \<and> n \<noteq> 0 \<and> (\<forall>j. revenue_at cr c j \<noteq> Some NaN) \<longrightarrow>
          loc g c k = Some (fsum (map (per_customer cr n c) (filter (\<lambda>j. j \<le> k) (columns g)))))"
proof -
  have cols: "offset_labels cr = sorted_list_of_set (rv_months_since_cohort ` set cr)"
    by (simp add: offset_labels_def sorted_list_of_set_sort_remdups [symmetric])
  have idx: "cohort_labels cr = sorted_list_of_set (rv_cohort_month ` set cr)"
    by (simp add: cohort_labels_def sorted_list_of_set_sort_remdups [symmetric])
  have zero: "\<forall>c\<in>set (cohort_labels cr). \<forall>k\<in>set (offset_labels cr).
      revenue_at cr c k = None \<longrightarrow>
      loc \<lparr>index = cohort_labels cr, columns = offset_labels cr,
          cells = map (\<lambda>c. map (ltv_cell cr acq c) (offset_labels cr)) (cohort_labels cr)\<rparr> c k
        = Some (Fin 0)"
    by (simp add: loc_ltv_pivot ltv_cell_no_row)
  have run: "\<forall>c\<in>set (cohort_labels cr). \<forall>k\<in>set (offset_labels cr). \<forall>n.
      cohort_size acq c = Some n \<and> n \<noteq> 0 \<and> (\<forall>j. revenue_at cr c j \<noteq> Some NaN) \<longrightarrow>
      loc \<lparr>index = cohort_labels cr, columns = offset_labels cr,
          cells = map (\<lambda>c. running_sum (Fin 0) (map (ltv_cell cr acq c) (offset_labels cr)))
                    (cohort_labels cr)\<rparr> c k
        = Some (fsum (map (per_customer cr n c) (filter (\<lambda>j. j \<le> k) (offset_labels cr))))"
  proof (intro ballI allI impI)
    fix c k n
    assume c: "c \<in> set (cohort_labels cr)" and k: "k \<in> set (offset_labels cr)"
      and h: "cohort_size acq c = Some n \<and> n \<noteq> 0 \<and> (\<forall>j. revenue_at cr c j \<noteq> Some NaN)"
    then have "ltv_cell cr acq c = per_customer cr n c"
      by (intro ext) (simp add: ltv_cell_per_customer)
    then show "loc \<lparr>index = cohort_labels cr, columns = offset_labels cr,
          cells = map (\<lambda>c. running_sum (Fin 0) (map (ltv_cell cr acq c) (offset_labels cr)))
                    (cohort_labels cr)\<rparr> c k
        = Some (fsum (map (per_customer cr n c) (filter (\<lambda>j. j \<le> k) (offset_labels cr))))"
      by (simp add: loc_ltv_tables [OF c k])
  qed
  show ?thesis
    apply (rule exI [where x = "\<lparr>index = cohort_labels cr, columns = offset_labels cr,
          cells = map (\<lambda>c. map (ltv_cell cr acq c) (offset_labels cr)) (cohort_labels cr)\<rparr>"])
    apply (rule exI [where x = "\<lparr>index = cohort_labels cr, columns = offset_labels cr,
          cells = map (\<lambda>c. running_sum (Fin 0) (map (ltv_cell cr acq c) (offset_labels cr)))
                    (cohort_labels cr)\<rparr>"])
    using zero run
    by (simp add: ltv_pivot_eq [OF assms] ltv_tables_eq [OF assms] cols [symmetric] idx [symmetric])
qed

lemma demo_labels:
  "sorted_list_of_set (rv_months_since_cohort ` set demo_cohort_rev) = [0, 1]"
  "sorted_list_of_set (rv_cohort_month ` set demo_cohort_rev) = [''2023-01'', ''2023-02'']"
proof -
  have "rv_months_since_cohort ` set demo_cohort_rev = set [0, 1, 0]"
    by (simp add: demo_cohort_rev_def)
  then show "sorted_list_of_set (rv_months_since_cohort ` set demo_cohort_rev) = [0, 1]"
    by (simp only: sorted_list_of_set_sort_remdups) simp
  have "rv_cohort_month ` set demo_cohort_rev = set [''2023-01'', ''2023-01'', ''2023-02'']"
    by (simp add: demo_cohort_rev_def)
  then show "sorted_list_of_set (rv_cohort_month ` set demo_cohort_rev) = [''2023-01'', ''2023-02'']"
    by (simp only: sorted_list_of_set_sort_remdups) simp
qed

theorem ltv_tables_dense_running_sum_witness:
  "distinct (map rev_key demo_cohort_rev) \<and> distinct (map aq_cohort_month demo_acq)
   \<and> (\<exists>p g. ltv_pivot demo_cohort_rev demo_acq = Inr p
        \<and> ltv_tables demo_cohort_rev demo_acq = Inr g
        \<and> columns g = [0, 1]
        \<and> revenue_at demo_cohort_rev ''2023-02'' 1 = None
        \<and> loc p ''2023-02'' 1 = Some (Fin 0)
        \<and> loc g ''2023-02'' 1 = Some (Fin 10)
        \<and> loc g ''2023-01'' 1 = Some (Fin 15))"
proof -
  have d1: "distinct (map rev_key demo_cohort_rev)"
    by (simp add: demo_cohort_rev_def rev_key_def)
  have d2: "distinct (map aq_cohort_month demo_acq)"
    by (simp add: demo_acq_def)
  from ltv_tables_dense_running_sum [OF d1 d2] obtain p g where
    p: "ltv_pivot demo_cohort_rev demo_acq = Inr p" and
    g: "ltv_tables demo_cohort_rev demo_acq = Inr g" and
    cols: "columns g = [0, 1]" and
    idx: "index g = [''2023-01'', ''2023-02'']" and
    zero: "\<forall>c\<in>set (index g). \<forall>k\<in>set (columns g).
          revenue_at demo_cohort_rev c k = None \<longrightarrow> loc p c k = Some (Fin 0)" and
    run: "\<forall>c\<in>set (index g). \<forall>k\<in>set (columns g). \<forall>n.
          cohort_size demo_acq c = Some n \<and> n \<noteq> 0
            \<and> (\<forall>j. revenue_at demo_cohort_rev c j \<noteq> Some NaN) \<longrightarrow>
          loc g c k = Some (fsum (map (per_customer demo_cohort_rev n c)
                                   (filter (\<lambda>j. j \<le> k) (columns g))))"
    unfolding demo_labels by blast
  have none: "revenue_at demo_cohort_rev ''2023-02'' 1 = None"
    by (simp add: revenue_at_def demo_cohort_rev_def rev_key_def)
  have nn: "\<And>c j. revenue_at demo_cohort_rev c j \<noteq> Some NaN"
    by (simp add: revenue_at_def demo_cohort_rev_def rev_key_def)
  have s1: "cohort_size demo_acq ''2023-01'' = Some 10"
    and s2: "cohort_size demo_acq ''2023-02'' = Some 3"
    by (simp_all add: cohort_size_def demo_acq_def)
  from zero none have z: "loc p ''2023-02'' 1 = Some (Fin 0)"
    by (simp add: cols idx)
  from run s2 nn have a: "loc g ''2023-02'' 1 =
      Some (fsum (map (per_customer demo_cohort_rev 3 ''2023-02'') [0, 1]))"
    by (simp add: cols idx)
  from run s1 nn have b: "loc g ''2023-01'' 1 =
      Some (fsum (map (per_customer demo_cohort_rev 10 ''2023-01'') [0, 1]))"
    by (simp add: cols idx)
  have e: "fsum (map (per_customer demo_cohort_rev 3 ''2023-02'') [0, 1]) = Fin 10"
    "fsum (map (per_customer demo_cohort_rev 10 ''2023-01'') [0, 1]) = Fin 15"
    by (simp_all add: fsum_def per_customer_def revenue_at_def demo_cohort_rev_def rev_key_def)
  from d1 d2 p g cols none z a b e show ?thesis by simp
qed

lemma size_cell_unmatched:
  "c \<notin> aq_cohort_month ` set acq \<Longrightarrow> size_cell acq c = NaN"
  by (auto simp: size_cell_def find_None_iff split: option.splits)

lemma fdiv_nan_right: "fdiv x NaN = NaN"
  by (cases x) simp_all

lemma ltv_cell_unmatched:
  "c \<notin> aq_cohort_month ` set acq \<Longrightarrow> ltv_cell cr acq c k = Fin 0"
  by (simp add: ltv_cell_def size_cell_unmatched replace_0_nan_def fillna_0_def fdiv_nan_right
        split: option.splits)

lemma fsum_zeros: "foldl fadd (Fin 0) (map (\<lambda>j. Fin 0) ks) = Fin 0"
  by (induction ks) simp_all

lemma ltv_frame_unmatched:
  assumes "distinct (map aq_cohort_month acq)" "c \<notin> aq_cohort_month ` set acq"
  shows "\<forall>r\<in>set (ltv_frame cr acq). rv_cohort_month r = c \<longrightarrow> lt_ltv r = NaN"
proof -
  from assms(2) show ?thesis
    by (auto simp: ltv_frame_def merge_left_acq_distinct [OF assms(1)] rev_row.extend_def
        size_cell_unmatched replace_0_nan_def fdiv_nan_right)
qed

text \<open>
  C10. For frames keyed as the data model says, a cohort_month of \<open>cohort_rev\<close> without a
  row in \<open>acq_counts\<close> does not make \<open>ltv_tables\<close> fail: the left join leaves the ltv of
  its rows \<open>NaN\<close>, and the returned grid has a row for it that holds 0 in every column.
\<close>

theorem ltv_tables_cohort_without_size:
  assumes "distinct (map rev_key cr)" and "distinct (map aq_cohort_month acq)"
    and "c \<in> rv_cohort_month ` set cr" and "c \<notin> aq_cohort_month ` set acq"
  shows "(\<forall>r\<in>set (ltv_frame cr acq). rv_cohort_month r = c \<longrightarrow> lt_ltv r = NaN)
    \<and> (\<exists>g. ltv_tables cr acq = Inr g \<and> c \<in> set (index g)
          \<and> (\<forall>k\<in>set (columns g). loc g c k = Some (Fin 0)))"
proof -
  from assms(3) have c: "c \<in> set (cohort_labels cr)" by (simp add: labels_props)
  have z: "ltv_cell cr acq c = (\<lambda>j. Fin 0)"
    by (intro ext) (simp add: ltv_cell_unmatched [OF assms(4)])
  have "\<forall>k\<in>set (offset_labels cr).
      loc \<lparr>index = cohort_labels cr, columns = offset_labels cr,
          cells = map (\<lambda>c. running_sum (Fin 0) (map (ltv_cell cr acq c) (offset_labels cr)))
                    (cohort_labels cr)\<rparr> c k = Some (Fin 0)"
    by (simp add: loc_ltv_tables [OF c] z fsum_def fsum_zeros)
  with c ltv_frame_unmatched [OF assms(2,4)] show ?thesis
    by (simp add: ltv_tables_eq [OF assms(1,2)])
qed

theorem ltv_tables_cohort_without_size_witness:
  "distinct (map rev_key orphan_cohort_rev) \<and> distinct (map aq_cohort_month test_acq)
   \<and> ''2023-03'' \<in> rv_cohort_month ` set orphan_cohort_rev
   \<and> ''2023-03'' \<notin> aq_cohort_month ` set test_acq
   \<and> (\<exists>g. ltv_tables orphan_cohort_rev test_acq = Inr g
         \<and> g = \<lparr>index = [''2023-01'', ''2023-03''], columns = [0, 2],
                 cells = [[Fin 10, Fin 10], [Fin 0, Fin 0]]\<rparr>
         \<and> loc g ''2023-03'' 0 = Some (Fin 0) \<and> loc g ''2023-03'' 2 = Some (Fin 0))"
proof -
  have d1: "distinct (map rev_key orphan_cohort_rev)"
    by (simp add: orphan_cohort_rev_def rev_key_def)
  have d2: "distinct (map aq_cohort_month test_acq)"
    by (simp add: test_acq_def)
  have m1: "''2023-03'' \<in> rv_cohort_month ` set orphan_cohort_rev"
    by (simp add: orphan_cohort_rev_def)
  have m2: "''2023-03'' \<notin> aq_cohort_month ` set test_acq"
    by (simp add: test_acq_def)
  have fr: "ltv_frame orphan_cohort_rev test_acq =
     [\<lparr>rv_cohort_month = ''2023-01'', rv_months_since_cohort = 0, rv_revenue = Fin 100,
       lt_new_customers = Fin 10, lt_ltv = Fin 10\<rparr>,
      \<lparr>rv_cohort_month = ''2023-03'', rv_months_since_cohort = 2, rv_revenue = Fin 40,
       lt_new_customers = NaN, lt_ltv = NaN\<rparr>]"
    by (simp add: ltv_frame_def merge_left_acq_def orphan_cohort_rev_def test_acq_def
        replace_0_nan_def rev_row.extend_def)
  have ev: "ltv_tables orphan_cohort_rev test_acq =
      Inr \<lparr>index = [''2023-01'', ''2023-03''], columns = [0, 2],
                 cells = [[Fin 10, Fin 10], [Fin 0, Fin 0]]\<rparr>"
    by (simp add: ltv_tables_def ltv_pivot_def pivot_def fr ltv_key_def
      fillna_grid_def fillna_0_def sort_index_def cumsum_axis1_def cumsum_row_def)
  from ltv_tables_cohort_without_size [OF d1 d2 m1 m2] obtain g where
    g: "ltv_tables orphan_cohort_rev test_acq = Inr g" and
    z: "\<forall>k\<in>set (columns g). loc g ''2023-03'' k = Some (Fin 0)"
    by blast
  from g ev have eq: "g = \<lparr>index = [''2023-01'', ''2023-03''], columns = [0, 2],
                 cells = [[Fin 10, Fin 10], [Fin 0, Fin 0]]\<rparr>" by simp
  with z have "loc g ''2023-03'' 0 = Some (Fin 0)" "loc g ''2023-03'' 2 = Some (Fin 0)"
    by simp_all
  with d1 d2 m1 m2 g eq show ?thesis by blast
qed

lemma fle_refl_nonneg: "fl_nonneg x \<Longrightarrow> fle x x"
  by (cases x) (simp_all add: fl_nonneg_def)

lemma fle_trans: "fle x y \<Longrightarrow> fle y z \<Longrightarrow> fle x z"
  by (cases x; cases y; cases z) simp_all

lemma fadd_nonneg: "fl_nonneg a \<Longrightarrow> fl_nonneg x \<Longrightarrow> fl_nonneg (fadd a x) \<and> fle a (fadd a x)"
  by (cases a; cases x) (simp_all add: fl_nonneg_def)

lemma foldl_fadd_nonneg:
  "fl_nonneg a \<Longrightarrow> \<forall>x\<in>set xs. fl_nonneg x \<Longrightarrow>
   fl_nonneg (foldl fadd a xs) \<and> fle a (foldl fadd a xs)"
proof (induction xs arbitrary: a)
  case Nil
  then show ?case by (simp add: fle_refl_nonneg)
next
  case (Cons x xs)
  then have step: "fl_nonneg (fadd a x)" "fle a (fadd a x)"
    by (simp_all add: fadd_nonneg)
  from Cons.IH [OF step(1)] Cons.prems(2)
  have "fl_nonneg (foldl fadd (fadd a x) xs)" "fle (fadd a x) (foldl fadd (fadd a x) xs)"
    by simp_all
  with step(2) show ?case by (auto intro: fle_trans)
qed

lemma filter_le_split:
  "sorted ks \<Longrightarrow> j \<le> k \<Longrightarrow>
   filter (\<lambda>i. i \<le> k) ks = filter (\<lambda>i. i \<le> j) ks @ filter (\<lambda>i. j < i \<and> i \<le> k) ks"
  for j k :: int
proof (induction ks)
  case Nil
  then show ?case by simp
next
  case (Cons x xs)
  show ?case
  proof (cases "x \<le> j")
    case True
    with Cons show ?thesis by simp
  next
    case False
    with Cons.prems have "\<forall>i\<in>set xs. \<not> i \<le> j" by auto
    then have e: "filter (\<lambda>i. i \<le> j) xs = []" by (simp add: filter_empty_conv)
    with Cons False show ?thesis by simp
  qed
qed

lemma fdiv_nonneg:
  "fl_nonneg r \<Longrightarrow> 0 < n \<Longrightarrow> fl_nonneg (fdiv r (Fin n))"
  by (cases r) (simp_all add: fl_nonneg_def)

lemma find_Some_mem: "find P xs = Some a \<Longrightarrow> a \<in> set xs"
  by (induction xs) (auto split: if_splits)

lemma size_cell_cases:
  "size_cell acq c = NaN \<or> (\<exists>a\<in>set acq. size_cell acq c = Fin (of_int (aq_new_customers a)))"
proof (cases "find (\<lambda>a. aq_cohort_month a = c) acq")
  case None
  then show ?thesis by (simp add: size_cell_def)
next
  case (Some a)
  then have "a \<in> set acq" by (rule find_Some_mem)
  with Some show ?thesis by (auto simp: size_cell_def)
qed

lemma ltv_cell_nonneg:
  assumes "\<forall>r\<in>set cr. fl_nonneg (rv_revenue r)" "\<forall>a\<in>set acq. 0 < aq_new_customers a"
  shows "fl_nonneg (ltv_cell cr acq c k)"
proof (cases "find (\<lambda>r. rev_key r = (c, k)) cr")
  case None
  then show ?thesis by (simp add: ltv_cell_def fl_nonneg_def)
next
  case (Some r)
  then have "r \<in> set cr" by (rule find_Some_mem)
  with assms(1) have r: "fl_nonneg (rv_revenue r)" by simp
  from size_cell_cases [of acq c] show ?thesis
  proof
    assume "size_cell acq c = NaN"
    with Some show ?thesis
      by (simp add: ltv_cell_def replace_0_nan_def fdiv_nan_right fillna_0_def fl_nonneg_def)
  next
    assume "\<exists>a\<in>set acq. size_cell acq c = Fin (of_int (aq_new_customers a))"
    then obtain a where a: "a \<in> set acq" "size_cell acq c = Fin (of_int (aq_new_customers a))"
      by blast
    with assms(2) have pos: "(0::rat) < of_int (aq_new_customers a)" by simp
    from fdiv_nonneg [OF r pos] have nn: "fl_nonneg (fdiv (rv_revenue r) (Fin (of_int (aq_new_customers a))))" .
    then have "fdiv (rv_revenue r) (Fin (of_int (aq_new_customers a))) \<noteq> NaN"
      by (auto simp: fl_nonneg_def)
    with Some a pos nn show ?thesis
      by (simp add: ltv_cell_def replace_0_nan_def fillna_0_def)
  qed
qed

text \<open>
  C7. For frames keyed as the data model says, if every revenue is \<open>\<ge> 0\<close> and every
  new_customers is positive, every row of the grid of \<open>ltv_tables\<close> is non-decreasing
  from left to right.
\<close>

theorem ltv_tables_rows_monotone:
  assumes "distinct (map rev_key cr)" and "distinct (map aq_cohort_month acq)"
    and "\<forall>r\<in>set cr. fl_nonneg (rv_revenue r)"
    and "\<forall>a\<in>set acq. 0 < aq_new_customers a"
  shows "\<exists>g. ltv_tables cr acq = Inr g
    \<and> (\<forall>c\<in>set (index g). \<forall>j\<in>set (columns g). \<forall>k\<in>set (columns g). j \<le> k \<longrightarrow>
          (\<exists>x y. loc g c j = Some x \<and> loc g c k = Some y \<and> fle x y))"
proof -
  let ?g = "\<lparr>index = cohort_labels cr, columns = offset_labels cr,
          cells = map (\<lambda>c. running_sum (Fin 0) (map (ltv_cell cr acq c) (offset_labels cr)))
                    (cohort_labels cr)\<rparr>"
  have "\<exists>x y. loc ?g c j = Some x \<and> loc ?g c k = Some y \<and> fle x y"
    if c: "c \<in> set (cohort_labels cr)" and j: "j \<in> set (offset_labels cr)"
      and k: "k \<in> set (offset_labels cr)" and jk: "j \<le> k" for c j k
  proof -
    let ?f = "ltv_cell cr acq c"
    let ?lo = "filter (\<lambda>i. i \<le> j) (offset_labels cr)"
    let ?hi = "filter (\<lambda>i. j < i \<and> i \<le> k) (offset_labels cr)"
    have nn: "\<And>i. fl_nonneg (?f i)" using assms(3,4) by (rule ltv_cell_nonneg)
    have split: "filter (\<lambda>i. i \<le> k) (offset_labels cr) = ?lo @ ?hi"
      by (rule filter_le_split) (simp_all add: labels_props jk)
    have a: "fl_nonneg (foldl fadd (Fin 0) (map ?f ?lo))"
      using foldl_fadd_nonneg [of "Fin 0" "map ?f ?lo"] nn by (simp add: fl_nonneg_def)
    have "fle (foldl fadd (Fin 0) (map ?f ?lo)) (foldl fadd (foldl fadd (Fin 0) (map ?f ?lo)) (map ?f ?hi))"
      using foldl_fadd_nonneg [OF a, of "map ?f ?hi"] nn by simp
    then have "fle (fsum (map ?f ?lo)) (fsum (map ?f (filter (\<lambda>i. i \<le> k) (offset_labels cr))))"
      by (simp add: fsum_def split)
    then show ?thesis
      by (simp add: loc_ltv_tables [OF c j] loc_ltv_tables [OF c k])
  qed
  then show ?thesis
    by (simp add: ltv_tables_eq [OF assms(1,2)])
qed

theorem ltv_tables_rows_monotone_witness:
  "distinct (map rev_key demo_cohort_rev) \<and> distinct (map aq_cohort_month demo_acq)
   \<and> list_all (\<lambda>r. fl_nonneg (rv_revenue r)) demo_cohort_rev
   \<and> list_all (\<lambda>a. 0 < aq_new_customers a) demo_acq
   \<and> (\<exists>g x y. ltv_tables demo_cohort_rev demo_acq = Inr g
        \<and> loc g ''2023-01'' 0 = Some x \<and> loc g ''2023-01'' 1 = Some y \<and> fle x y
        \<and> x = Fin 10 \<and> y = Fin 15)"
proof -
  have d1: "distinct (map rev_key demo_cohort_rev)"
    by (simp add: demo_cohort_rev_def rev_key_def)
  have d2: "distinct (map aq_cohort_month demo_acq)"
    by (simp add: demo_acq_def)
  have n1: "\<forall>r\<in>set demo_cohort_rev. fl_nonneg (rv_revenue r)"
    by (simp add: demo_cohort_rev_def fl_nonneg_def)
  have n2: "\<forall>a\<in>set demo_acq. 0 < aq_new_customers a"
    by (simp add: demo_acq_def)
  have fr: "ltv_frame demo_cohort_rev demo_acq =
     [\<lparr>rv_cohort_month = ''2023-01'', rv_months_since_cohort = 0, rv_revenue = Fin 100,
       lt_new_customers = Fin 10, lt_ltv = Fin 10\<rparr>,
      \<lparr>rv_cohort_month = ''2023-01'', rv_months_since_cohort = 1, rv_revenue = Fin 50,
       lt_new_customers = Fin 10, lt_ltv = Fin 5\<rparr>,
      \<lparr>rv_cohort_month = ''2023-02'', rv_months_since_cohort = 0, rv_revenue = Fin 30,
       lt_new_customers = Fin 3, lt_ltv = Fin 10\<rparr>]"
    by (simp add: ltv_frame_def merge_left_acq_def demo_cohort_rev_def demo_acq_def
        replace_0_nan_def rev_row.extend_def)
  have ev: "ltv_tables demo_cohort_rev demo_acq =
      Inr \<lparr>index = [''2023-01'', ''2023-02''], columns = [0, 1],
                 cells = [[Fin 10, Fin 15], [Fin 10, Fin 10]]\<rparr>"
    by (simp add: ltv_tables_def ltv_pivot_def pivot_def fr ltv_key_def
      fillna_grid_def fillna_0_def sort_index_def cumsum_axis1_def cumsum_row_def)
  from ltv_tables_rows_monotone [OF d1 d2 n1 n2] obtain g where
    g: "ltv_tables demo_cohort_rev demo_acq = Inr g" and
    m: "\<forall>c\<in>set (index g). \<forall>j\<in>set (columns g). \<forall>k\<in>set (columns g). j \<le> k \<longrightarrow>
          (\<exists>x y. loc g c j = Some x \<and> loc g c k = Some y \<and> fle x y)"
    by blast
  from g ev have eq: "g = \<lparr>index = [''2023-01'', ''2023-02''], columns = [0, 1],
                 cells = [[Fin 10, Fin 15], [Fin 10, Fin 10]]\<rparr>" by simp
  with m have "\<exists>x y. loc g ''2023-01'' 0 = Some x \<and> loc g ''2023-01'' 1 = Some y \<and> fle x y"
    by simp
  then obtain x y where xy: "loc g ''2023-01'' 0 = Some x" "loc g ''2023-01'' 1 = Some y" "fle x y"
    by blast
  with eq have "x = Fin 10" "y = Fin 15" by (simp_all add: loc_def)
  with d1 d2 n1 n2 g xy show ?thesis by (auto simp: list_all_iff)
qed

lemma test_ltv_frame:
  "ltv_frame test_cohort_rev test_acq =
     [\<lparr>rv_cohort_month = ''2023-01'', rv_months_since_cohort = 0, rv_revenue = Fin 100,
       lt_new_customers = Fin 10, lt_ltv = Fin 10\<rparr>,
      \<lparr>rv_cohort_month = ''2023-01'', rv_months_since_cohort = 1, rv_revenue = Fin 50,
       lt_new_customers = Fin 10, lt_ltv = Fin 5\<rparr>]"
  by (simp add: ltv_frame_def merge_left_acq_def test_cohort_rev_def test_acq_def
      replace_0_nan_def rev_row.extend_def)

lemma test_ltv_tables:
  "ltv_tables test_cohort_rev test_acq =
     Inr \<lparr>index = [''2023-01''], columns = [0, 1], cells = [[Fin 10, Fin 15]]\<rparr>"
  by (simp add: ltv_tables_def ltv_pivot_def pivot_def test_ltv_frame ltv_key_def
      fillna_grid_def fillna_0_def sort_index_def cumsum_axis1_def cumsum_row_def)

text \<open>
  C2. With cohort_rev = {("2023-01", 0, 100.0), ("2023-01", 1, 50.0)} and
  acq_counts = {("2023-01", 10)}, \<open>ltv_tables\<close> returns a grid whose row "2023-01" holds
  10.0 at offset 0 and 15.0 at offset 1.
\<close>

theorem ltv_tables_test_scenario:
  "\<exists>g. ltv_tables
          [\<lparr>rv_cohort_month = ''2023-01'', rv_months_since_cohort = 0, rv_revenue = Fin 100\<rparr>,
           \<lparr>rv_cohort_month = ''2023-01'', rv_months_since_cohort = 1, rv_revenue = Fin 50\<rparr>]
          [\<lparr>aq_cohort_month = ''2023-01'', aq_new_customers = 10\<rparr>] = Inr g
       \<and> loc g ''2023-01'' 0 = Some (Fin 10)
       \<and> loc g ''2023-01'' 1 = Some (Fin 15)"
  using test_ltv_tables by (simp add: test_cohort_rev_def test_acq_def loc_def)

section \<open>Properties of the CAC table\<close>

lemma find_map_key:
  "find (\<lambda>p. fst p = c) (map (\<lambda>m. (m, F m)) ks) = (if c \<in> set ks then Some (c, F c) else None)"
  by (induction ks) auto

lemma spend_lookup:
  "filter (\<lambda>(m, s). m = c) (spend_by_month spend) =
     (if c \<in> sp_month ` set spend then [(c, month_spend spend c)] else [])"
proof -
  have d: "distinct (map fst (spend_by_month spend))"
    by (simp add: spend_by_month_def comp_def)
  have e: "(\<lambda>(m, s). m = c) = (\<lambda>p. fst p = c)" by (auto simp: fun_eq_iff)
  have f: "find (\<lambda>p. fst p = c) (spend_by_month spend) =
      (if c \<in> sp_month ` set spend then Some (c, month_spend spend c) else None)"
    unfolding spend_by_month_def month_spend_def find_map_key by simp
  show ?thesis
    unfolding e by (simp add: filter_distinct_key [OF d] f)
qed

lemma nansum_Nil: "month_spend spend c = Fin 0" if "c \<notin> sp_month ` set spend"
proof -
  from that have "filter (\<lambda>r. sp_month r = c) spend = []"
    by (auto simp: filter_empty_conv)
  then show ?thesis by (simp add: month_spend_def nansum_def)
qed

lemma merge_left_spend_eq:
  "merge_left_spend acq (spend_by_month spend) =
     map (\<lambda>a. (a, if aq_cohort_month a \<in> sp_month ` set spend
                   then month_spend spend (aq_cohort_month a) else NaN)) acq"
  unfolding merge_left_spend_def spend_lookup by (induction acq) simp_all

lemma cac_frame_eq:
  "cac_frame acq spend =
     map (\<lambda>a. acq_row.extend a
            \<lparr>cc_spend_total = fillna_0 (month_spend spend (aq_cohort_month a)),
             cc_CAC = fdiv (fillna_0 (month_spend spend (aq_cohort_month a)))
                        (replace_0_nan (Fin (of_int (aq_new_customers a))))\<rparr>) acq"
  by (simp add: cac_frame_def merge_left_spend_eq nansum_Nil fillna_0_def)

lemma fillna_0_not_nan: "fillna_0 s \<noteq> NaN"
  by (simp add: fillna_0_def)

lemma cac_cell_nan:
  "(fdiv (fillna_0 s) (replace_0_nan (Fin (of_int n))) = NaN) = (n = 0)"
proof (cases "n = 0")
  case True
  then show ?thesis by (simp add: replace_0_nan_def fdiv_nan_right)
next
  case False
  then have "fdiv (fillna_0 s) (Fin (of_int n)) \<noteq> NaN"
    by (intro fdiv_not_nan fillna_0_not_nan) simp
  with False show ?thesis by (simp add: replace_0_nan_def)
qed

lemma cac_cell_quotient:
  "n \<noteq> 0 \<Longrightarrow> fdiv t (replace_0_nan (Fin (of_int n))) = fdiv t (Fin (of_int n))"
  by (simp add: replace_0_nan_def)

text \<open>
  C3. In every row of the CAC table, CAC is the undefined marker \<open>NaN\<close> exactly when
  new_customers is 0, and otherwise it is spend_total divided by new_customers; a cohort
  with new_customers \<open>> 0\<close> and no spend row has spend_total 0 and CAC 0. (The table
  has one row for each row of \<open>acq_counts\<close>: see \<open>cac_rows_follow_sizes\<close>.)
\<close>

theorem cac_defined_iff_customers:
  "\<forall>r\<in>set (cac_frame acq spend).
      (cc_CAC r = NaN \<longleftrightarrow> aq_new_customers r = 0)
    \<and> (aq_new_customers r \<noteq> 0 \<longrightarrow>
          cc_CAC r = fdiv (cc_spend_total r) (Fin (of_int (aq_new_customers r))))
    \<and> (\<forall>s. aq_new_customers r \<noteq> 0 \<and> cc_spend_total r = Fin s \<longrightarrow>
          cc_CAC r = Fin (s / of_int (aq_new_customers r)))
    \<and> (0 < aq_new_customers r \<and> aq_cohort_month r \<notin> sp_month ` set spend \<longrightarrow>
          cc_spend_total r = Fin 0 \<and> cc_CAC r = Fin 0)"
proof
  fix r
  assume "r \<in> set (cac_frame acq spend)"
  then obtain a where a: "a \<in> set acq" and r: "r = acq_row.extend a
            \<lparr>cc_spend_total = fillna_0 (month_spend spend (aq_cohort_month a)),
             cc_CAC = fdiv (fillna_0 (month_spend spend (aq_cohort_month a)))
                        (replace_0_nan (Fin (of_int (aq_new_customers a))))\<rparr>"
    by (auto simp: cac_frame_eq)
  let ?n = "aq_new_customers a" and ?t = "fillna_0 (month_spend spend (aq_cohort_month a))"
  have f: "aq_new_customers r = ?n" "aq_cohort_month r = aq_cohort_month a"
    "cc_spend_total r = ?t" "cc_CAC r = fdiv ?t (replace_0_nan (Fin (of_int ?n)))"
    by (simp_all add: r acq_row.extend_def)
  have 1: "cc_CAC r = NaN \<longleftrightarrow> aq_new_customers r = 0"
    by (simp only: f cac_cell_nan)
  have 2: "aq_new_customers r \<noteq> 0 \<longrightarrow>
          cc_CAC r = fdiv (cc_spend_total r) (Fin (of_int (aq_new_customers r)))"
    by (simp add: f cac_cell_quotient)
  have 3: "\<forall>s. aq_new_customers r \<noteq> 0 \<and> cc_spend_total r = Fin s \<longrightarrow>
          cc_CAC r = Fin (s / of_int (aq_new_customers r))"
    using 2 by auto
  have 4: "0 < aq_new_customers r \<and> aq_cohort_month r \<notin> sp_month ` set spend \<longrightarrow>
          cc_spend_total r = Fin 0 \<and> cc_CAC r = Fin 0"
  proof
    assume h: "0 < aq_new_customers r \<and> aq_cohort_month r \<notin> sp_month ` set spend"
    then have t: "cc_spend_total r = Fin 0"
      by (simp add: f nansum_Nil fillna_0_def)
    with h 3 show "cc_spend_total r = Fin 0 \<and> cc_CAC r = Fin 0" by auto
  qed
  from 1 2 3 4 show "(cc_CAC r = NaN \<longleftrightarrow> aq_new_customers r = 0)
    \<and> (aq_new_customers r \<noteq> 0 \<longrightarrow>
          cc_CAC r = fdiv (cc_spend_total r) (Fin (of_int (aq_new_customers r))))
    \<and> (\<forall>s. aq_new_customers r \<noteq> 0 \<and> cc_spend_total r = Fin s \<longrightarrow>
          cc_CAC r = Fin (s / of_int (aq_new_customers r)))
    \<and> (0 < aq_new_customers r \<and> aq_cohort_month r \<notin> sp_month ` set spend \<longrightarrow>
          cc_spend_total r = Fin 0 \<and> cc_CAC r = Fin 0)"
    by blast
qed

lemma demo_cac_frame:
  "cac_frame demo_sizes demo_spend =
     [\<lparr>aq_cohort_month = ''2023-01'', aq_new_customers = 10,
       cc_spend_total = Fin 250, cc_CAC = Fin 25\<rparr>,
      \<lparr>aq_cohort_month = ''2023-02'', aq_new_customers = 0,
       cc_spend_total = Fin 70, cc_CAC = NaN\<rparr>,
      \<lparr>aq_cohort_month = ''2023-03'', aq_new_customers = 4,
       cc_spend_total = Fin 0, cc_CAC = Fin 0\<rparr>]"
  by (simp add: cac_frame_eq demo_sizes_def demo_spend_def month_spend_def nansum_def
      acq_row.extend_def fillna_0_def replace_0_nan_def)

theorem cac_defined_iff_customers_witness:
  "(\<exists>r1 r2 r3. cac_frame demo_sizes demo_spend = [r1, r2, r3]
      \<and> aq_new_customers r1 = 10 \<and> cc_spend_total r1 = Fin 250 \<and> cc_CAC r1 = Fin 25
      \<and> aq_new_customers r2 = 0 \<and> cc_CAC r2 = NaN
      \<and> aq_new_customers r3 = 4 \<and> ''2023-03'' \<notin> sp_month ` set demo_spend
      \<and> cc_spend_total r3 = Fin 0 \<and> cc_CAC r3 = Fin 0)"
proof -
  let ?r3 = "\<lparr>aq_cohort_month = ''2023-03'', aq_new_customers = 4,
       cc_spend_total = Fin 0, cc_CAC = Fin 0\<rparr>"
  have m: "''2023-03'' \<notin> sp_month ` set demo_spend"
    by (simp add: demo_spend_def)
  have "?r3 \<in> set (cac_frame demo_sizes demo_spend)"
    by (simp add: demo_cac_frame)
  with cac_defined_iff_customers [of demo_sizes demo_spend] m
  have "cc_spend_total ?r3 = Fin 0 \<and> cc_CAC ?r3 = Fin 0"
    by simp
  with m show ?thesis by (simp add: demo_cac_frame)
qed

text \<open>
  C5. The CAC table has, row by row, the cohort_month and new_customers of \<open>acq_counts\<close>:
  its months are those of \<open>acq_counts\<close>, a spend month without a cohort does not appear
  in it, and a cohort without a spend row appears with spend_total 0; spend_total is the
  month's spend summed over all channels.
\<close>

theorem cac_rows_follow_sizes:
  "map aq_cohort_month (cac_frame acq spend) = map aq_cohort_month acq
   \<and> map aq_new_customers (cac_frame acq spend) = map aq_new_customers acq
   \<and> (\<forall>r\<in>set (cac_frame acq spend).
          cc_spend_total r = fillna_0 (month_spend spend (aq_cohort_month r))
        \<and> (aq_cohort_month r \<notin> sp_month ` set spend \<longrightarrow> cc_spend_total r = Fin 0))
   \<and> (\<forall>m\<in>sp_month ` set spend. m \<notin> aq_cohort_month ` set acq \<longrightarrow>
          m \<notin> aq_cohort_month ` set (cac_frame acq spend))"
proof -
  have k: "map aq_cohort_month (cac_frame acq spend) = map aq_cohort_month acq"
    by (simp add: cac_frame_eq acq_row.extend_def comp_def)
  have n: "map aq_new_customers (cac_frame acq spend) = map aq_new_customers acq"
    by (simp add: cac_frame_eq acq_row.extend_def comp_def)
  have t: "\<forall>r\<in>set (cac_frame acq spend).
          cc_spend_total r = fillna_0 (month_spend spend (aq_cohort_month r))
        \<and> (aq_cohort_month r \<notin> sp_month ` set spend \<longrightarrow> cc_spend_total r = Fin 0)"
    by (auto simp: cac_frame_eq acq_row.extend_def nansum_Nil fillna_0_def)
  have "aq_cohort_month ` set (cac_frame acq spend) = aq_cohort_month ` set acq"
    using k by (metis set_map)
  then have s: "\<forall>m\<in>sp_month ` set spend. m \<notin> aq_cohort_month ` set acq \<longrightarrow>
          m \<notin> aq_cohort_month ` set (cac_frame acq spend)"
    by simp
  from k n t s show ?thesis by blast
qed

theorem cac_rows_follow_sizes_witness:
  "map aq_cohort_month (cac_frame demo_sizes demo_spend) = [''2023-01'', ''2023-02'', ''2023-03'']
   \<and> ''2022-12'' \<in> sp_month ` set demo_spend
   \<and> ''2022-12'' \<notin> aq_cohort_month ` set demo_sizes
   \<and> ''2022-12'' \<notin> aq_cohort_month ` set (cac_frame demo_sizes demo_spend)
   \<and> ''2023-03'' \<notin> sp_month ` set demo_spend
   \<and> (\<exists>r\<in>set (cac_frame demo_sizes demo_spend).
         aq_cohort_month r = ''2023-03'' \<and> cc_spend_total r = Fin 0)
   \<and> (\<exists>r\<in>set (cac_frame demo_sizes demo_spend).
         aq_cohort_month r = ''2023-01'' \<and> cc_spend_total r = Fin 250)"
proof -
  have a: "''2022-12'' \<in> sp_month ` set demo_spend"
    and b: "''2022-12'' \<notin> aq_cohort_month ` set demo_sizes"
    and c: "''2023-03'' \<notin> sp_month ` set demo_spend"
    by (simp_all add: demo_spend_def demo_sizes_def)
  from cac_rows_follow_sizes [of demo_sizes demo_spend]
  have k: "map aq_cohort_month (cac_frame demo_sizes demo_spend) = map aq_cohort_month demo_sizes"
    and m: "\<forall>m\<in>sp_month ` set demo_spend. m \<notin> aq_cohort_month ` set demo_sizes \<longrightarrow>
          m \<notin> aq_cohort_month ` set (cac_frame demo_sizes demo_spend)"
    by blast+
  from m a b have d: "''2022-12'' \<notin> aq_cohort_month ` set (cac_frame demo_sizes demo_spend)"
    by blast
  from k have e: "map aq_cohort_month (cac_frame demo_sizes demo_spend) =
      [''2023-01'', ''2023-02'', ''2023-03'']"
    by (simp add: demo_sizes_def)
  have f: "\<exists>r\<in>set (cac_frame demo_sizes demo_spend).
         aq_cohort_month r = ''2023-03'' \<and> cc_spend_total r = Fin 0"
    "\<exists>r\<in>set (cac_frame demo_sizes demo_spend).
         aq_cohort_month r = ''2023-01'' \<and> cc_spend_total r = Fin 250"
    by (simp_all add: demo_cac_frame)
  from a b c d e f show ?thesis by blast
qed

section \<open>Properties of \<open>load_inputs\<close>\<close>

lemma digit_is_digit: "is_digit (digit n)"
  unfolding digit_def is_digit_def by (rule nth_mem) simp

lemma str_nat_digits: "\<forall>c\<in>set (str_nat n). is_digit c"
proof (induction n rule: str_nat.induct)
  case (1 n)
  show ?case
  proof (cases "n < 10")
    case True
    then have "str_nat n = [digit n]" by (subst str_nat.simps) simp
    then show ?thesis by (simp add: digit_is_digit del: str_nat.simps)
  next
    case False
    then have "str_nat n = str_nat (n div 10) @ [digit n]" by (subst str_nat.simps) simp
    with 1 False show ?thesis by (simp add: digit_is_digit del: str_nat.simps)
  qed
qed

lemma canonical_form:
  assumes "is_yyyy_mm s"
  shows "\<exists>y1 y2 y3 y4 m1 m2. s = [y1, y2, y3, y4, CHR ''-'', m1, m2]
     \<and> is_digit y1 \<and> is_digit y2 \<and> is_digit y3 \<and> is_digit y4
     \<and> is_digit m1 \<and> is_digit m2"
proof -
  from assms obtain y1 y2 y3 y4 m1 m2 where s: "s = [y1, y2, y3, y4, CHR ''-'', m1, m2]"
    and y: "is_digit y1" "is_digit y2" "is_digit y3" "is_digit y4"
    and m: "[m1, m2] \<in> set [''01'', ''02'', ''03'', ''04'', ''05'', ''06'',
                              ''07'', ''08'', ''09'', ''10'', ''11'', ''12'']"
    unfolding is_yyyy_mm_def by (simp only: list.case split: list.splits)
  from m have "is_digit m1 \<and> is_digit m2"
    unfolding is_digit_def by auto
  with s y show ?thesis by blast
qed

lemma canonical_shape:
  assumes "is_yyyy_mm s"
  shows "is_digit (hd s)" and "CHR ''-'' \<in> set s"
    and "\<forall>c\<in>set s. is_digit c \<or> c = CHR ''-''"
proof -
  from canonical_form [OF assms]
  obtain y1 y2 y3 y4 m1 m2 where s: "s = [y1, y2, y3, y4, CHR ''-'', m1, m2]"
    and d: "is_digit y1" "is_digit y2" "is_digit y3" "is_digit y4" "is_digit m1" "is_digit m2"
    by blast
  from s d show "is_digit (hd s)" by simp
  from s show "CHR ''-'' \<in> set s" by simp
  from s d show "\<forall>c\<in>set s. is_digit c \<or> c = CHR ''-''" by auto
qed

lemma not_digit: "\<not> is_digit CHR ''-''" "\<not> is_digit CHR ''.''"
  by (simp_all add: is_digit_def)

lemma str_int_not_canonical: "\<not> is_yyyy_mm (str_int i)"
proof
  assume c: "is_yyyy_mm (str_int i)"
  show False
  proof (cases "i < 0")
    case True
    then have "hd (str_int i) = CHR ''-''" by (simp add: str_int_def del: str_nat.simps)
    with canonical_shape(1) [OF c] not_digit(1) show False by simp
  next
    case False
    then have "str_int i = str_nat (nat i)" by (simp add: str_int_def del: str_nat.simps)
    with canonical_shape(2) [OF c] have "CHR ''-'' \<in> set (str_nat (nat i))" by simp
    with str_nat_digits not_digit(1) show False by blast
  qed
qed

lemma str_float_not_canonical: "\<not> is_canonical (str_float x)"
proof (cases x)
  case (FDec neg i d ds)
  have "\<not> is_yyyy_mm ((if neg then [CHR ''-''] else []) @ str_nat i @ [CHR ''.''] @ map digit (d # ds))"
    (is "\<not> is_yyyy_mm ?t")
  proof
    assume "is_yyyy_mm ?t"
    from canonical_shape(3) [OF this] have "is_digit CHR ''.'' \<or> CHR ''.'' = CHR ''-''"
      by (simp del: str_nat.simps)
    with not_digit(2) show False by simp
  qed
  with FDec show ?thesis by (simp add: is_canonical_def del: str_nat.simps)
next
  case (FInf neg)
  then show ?thesis by (simp add: is_canonical_def is_yyyy_mm_def)
next
  case FNaN
  then show ?thesis by (simp add: is_canonical_def)
qed

lemma str_bool_not_canonical: "\<not> is_yyyy_mm (str_bool b)"
  by (simp add: str_bool_def is_yyyy_mm_def)

lemma astype_str_not_canonical:
  assumes "\<forall>ms. c \<noteq> StrColumn ms"
  shows "\<forall>m\<in>set (astype_str c). \<not> is_canonical m"
proof (cases c)
  case (StrColumn ms)
  with assms show ?thesis by simp
next
  case (IntColumn ns)
  then show ?thesis by (simp add: is_canonical_def str_int_not_canonical)
next
  case (FloatColumn xs)
  then show ?thesis by (simp add: str_float_not_canonical)
next
  case (BoolColumn bs)
  then show ?thesis by (simp add: is_canonical_def str_bool_not_canonical)
qed

lemma demo_load:
  "load_inputs demo_raw_orders spend = Inr (demo_orders, load_spend spend)"
  by (simp add: load_inputs_def demo_orders_def demo_raw_orders_def)

text \<open>
  C9, as stated, fails: \<open>load_inputs\<close> only converts the month column to text. Loaded
  together with a non-empty orders table, a spend table whose months are the texts
  2023-01-15 and 2023-02-15 keeps exactly these texts, and one whose months are the
  integers 202301 and 202302 is loaded with the texts 202301 and 202302; none of them is
  of the form YYYY-MM.
\<close>

theorem load_inputs_month_not_canonical:
  "load_inputs demo_raw_orders dated_spend =
     Inr (demo_orders, \<lparr>ld_month = [Some ''2023-01-15'', Some ''2023-02-15''],
                        ld_channel = [''ads'', ''ads''], ld_spend = [Fin 200, Fin 100]\<rparr>)
   \<and> \<not> is_canonical (Some ''2023-01-15'')
   \<and> load_inputs demo_raw_orders numbered_spend =
     Inr (demo_orders, \<lparr>ld_month = [Some ''202301'', Some ''202302''],
                        ld_channel = [''ads'', ''ads''], ld_spend = [Fin 200, Fin 100]\<rparr>)
   \<and> \<not> is_canonical (Some ''202301'')"
  by (simp add: demo_load load_spend_def dated_spend_def numbered_spend_def str_int_def
      digit_def is_canonical_def is_yyyy_mm_def)

text \<open>
  C9, amended. For every non-empty orders table and every spend table, \<open>load_inputs\<close>
  returns, and the month column of the loaded spend table is \<open>astype(str)\<close> of the input
  column. A text column is kept as it is, so a column whose cells all are YYYY-MM texts is
  loaded with canonical months; the cells of an integer, float or boolean column are
  replaced by their \<open>str\<close>, which is never of the form YYYY-MM.
\<close>

theorem load_inputs_month_is_str:
  assumes "orders \<noteq> []"
  shows "\<exists>os s. load_inputs orders spend = Inr (os, s)
     \<and> ld_month s = astype_str (rs_month spend)
     \<and> (\<forall>ms. rs_month spend = StrColumn ms \<longrightarrow>
           ld_month s = ms
         \<and> (list_all is_canonical ms \<longrightarrow> list_all is_canonical (ld_month s)))
     \<and> ((\<forall>ms. rs_month spend \<noteq> StrColumn ms) \<longrightarrow>
           (\<forall>m\<in>set (ld_month s). \<not> is_canonical m))"
proof (intro exI conjI)
  from assms show "load_inputs orders spend = Inr (map load_order orders, load_spend spend)"
    by (simp add: load_inputs_def)
  show "ld_month (load_spend spend) = astype_str (rs_month spend)"
    by (simp add: load_spend_def)
  show "\<forall>ms. rs_month spend = StrColumn ms \<longrightarrow>
           ld_month (load_spend spend) = ms
         \<and> (list_all is_canonical ms \<longrightarrow> list_all is_canonical (ld_month (load_spend spend)))"
    by (simp add: load_spend_def)
  show "(\<forall>ms. rs_month spend \<noteq> StrColumn ms) \<longrightarrow>
           (\<forall>m\<in>set (ld_month (load_spend spend)). \<not> is_canonical m)"
    using astype_str_not_canonical [of "rs_month spend"] by (simp add: load_spend_def)
qed

theorem load_inputs_month_is_str_witness:
  "demo_raw_orders \<noteq> []
   \<and> rs_month canonical_spend = StrColumn [Some ''2023-01'', Some ''2023-02'']
   \<and> list_all is_canonical [Some ''2023-01'', Some ''2023-02'']
   \<and> load_inputs demo_raw_orders canonical_spend =
       Inr (demo_orders, \<lparr>ld_month = [Some ''2023-01'', Some ''2023-02''],
                          ld_channel = [''ads'', ''ads''], ld_spend = [Fin 200, Fin 100]\<rparr>)
   \<and> list_all is_canonical (ld_month (load_spend canonical_spend))"
proof -
  have n: "demo_raw_orders \<noteq> []" by (simp add: demo_raw_orders_def)
  have c: "rs_month canonical_spend = StrColumn [Some ''2023-01'', Some ''2023-02'']"
    by (simp add: canonical_spend_def)
  have a: "list_all is_canonical [Some ''2023-01'', Some ''2023-02'']"
    by (simp add: is_canonical_def is_yyyy_mm_def is_digit_def)
  have l: "load_inputs demo_raw_orders canonical_spend =
       Inr (demo_orders, \<lparr>ld_month = [Some ''2023-01'', Some ''2023-02''],
                          ld_channel = [''ads'', ''ads''], ld_spend = [Fin 200, Fin 100]\<rparr>)"
    by (simp add: demo_load load_spend_def canonical_spend_def)
  from load_inputs_month_is_str [OF n, of canonical_spend]
  obtain os s where e: "load_inputs demo_raw_orders canonical_spend = Inr (os, s)"
    and k: "\<forall>ms. rs_month canonical_spend = StrColumn ms \<longrightarrow>
           ld_month s = ms
         \<and> (list_all is_canonical ms \<longrightarrow> list_all is_canonical (ld_month s))"
    by (elim exE conjE) (rule that, assumption, assumption)
  from e have s: "s = load_spend canonical_spend" by (simp add: demo_load)
  from k c a have "list_all is_canonical (ld_month s)" by blast
  then have r: "list_all is_canonical (ld_month (load_spend canonical_spend))"
    unfolding s .
  from n c a l r show ?thesis by (intro conjI)
qed

section \<open>Properties of the SQL tables\<close>

lemma date_diff_trunc:
  "date_diff_month (date_trunc_month a) (date_trunc_month b) = month_no b - month_no a"
proof -
  have "(month_no b div 12 - month_no a div 12) * 12 + (month_no b mod 12 + 1 - (month_no a mod 12 + 1))
        = month_no b - month_no a"
    by presburger
  then show ?thesis
    by (simp add: date_diff_month_def date_trunc_month_def year_of_def month_of_def)
qed

lemma ts_le_refl: "ts_le a a"
  by (simp add: ts_le_def)

lemma ts_le_trans: "ts_le a b \<Longrightarrow> ts_le b c \<Longrightarrow> ts_le a c"
  by (auto simp: ts_le_def)

lemma ts_le_total: "ts_le a b \<or> ts_le b a"
  by (auto simp: ts_le_def)

lemma min_ts_le: "ts_le (min_ts a b) a" "ts_le (min_ts a b) b"
  using ts_le_total [of a b] by (auto simp: min_ts_def ts_le_refl)

lemma foldl_min_ts:
  "(foldl min_ts d ds \<in> set (d # ds)) \<and> (\<forall>x\<in>set (d # ds). ts_le (foldl min_ts d ds) x)"
proof (induction ds arbitrary: d)
  case Nil
  then show ?case by (simp add: ts_le_refl)
next
  case (Cons e es)
  let ?m = "min_ts d e"
  from Cons.IH [of ?m] have mem: "foldl min_ts ?m es \<in> set (?m # es)"
    and le: "\<forall>x\<in>set (?m # es). ts_le (foldl min_ts ?m es) x" by blast+
  have "?m = d \<or> ?m = e" by (simp add: min_ts_def)
  with mem have 1: "foldl min_ts d (e # es) \<in> set (d # e # es)" by auto
  from le have m: "ts_le (foldl min_ts ?m es) ?m" by simp
  have "ts_le (foldl min_ts ?m es) d" "ts_le (foldl min_ts ?m es) e"
    using m min_ts_le [of d e] by (blast intro: ts_le_trans)+
  with le have 2: "\<forall>x\<in>set (d # e # es). ts_le (foldl min_ts d (e # es)) x" by simp
  from 1 2 show ?case by blast
qed

lemma first_orders_row:
  assumes "fo \<in> set (first_orders facts)"
  shows "\<exists>f fs. filter (\<lambda>f. customer_id f = fo_customer_id fo) facts = f # fs
           \<and> first_order_date fo = foldl min_ts (order_date f) (map order_date fs)
           \<and> fo_cohort_month fo = strftime_ym (first_order_date fo)"
proof -
  from assms obtain k where
    "fo \<in> set (case filter (\<lambda>f. customer_id f = k) facts of
          [] \<Rightarrow> []
        | f # fs \<Rightarrow>
            let d = foldl min_ts (order_date f) (map order_date fs)
            in [\<lparr>fo_customer_id = k, first_order_date = d, fo_cohort_month = strftime_ym d,
                 acquisition_channel = any_value (map channel (f # fs))\<rparr>])"
    by (auto simp: first_orders_def)
  then show ?thesis
    by (cases "filter (\<lambda>f. customer_id f = k) facts") (auto simp: Let_def)
qed

lemma first_order_date_min:
  assumes "fo \<in> set (first_orders facts)"
  shows "(\<exists>f\<in>set facts. customer_id f = fo_customer_id fo \<and> order_date f = first_order_date fo)
       \<and> (\<forall>f\<in>set facts. customer_id f = fo_customer_id fo \<longrightarrow> ts_le (first_order_date fo) (order_date f))"
proof -
  from first_orders_row [OF assms] obtain f fs where
    g: "filter (\<lambda>f. customer_id f = fo_customer_id fo) facts = f # fs" and
    d: "first_order_date fo = foldl min_ts (order_date f) (map order_date fs)"
    by blast
  from g have s: "set (f # fs) = {x \<in> set facts. customer_id x = fo_customer_id fo}"
    by (metis set_filter)
  from foldl_min_ts [of "order_date f" "map order_date fs"] d
  have mem: "first_order_date fo \<in> order_date ` set (f # fs)"
    and le: "\<forall>x\<in>set (f # fs). ts_le (first_order_date fo) (order_date x)"
    by auto
  from mem s have 1: "\<exists>f\<in>set facts. customer_id f = fo_customer_id fo \<and> order_date f = first_order_date fo"
    by auto
  from le s have 2: "\<forall>f\<in>set facts. customer_id f = fo_customer_id fo \<longrightarrow> ts_le (first_order_date fo) (order_date f)"
    by auto
  from 1 2 show ?thesis by blast
qed

lemma fct_row:
  assumes "r \<in> set (fct facts fos)"
  shows "\<exists>f\<in>set facts. \<exists>fo\<in>set fos. fo_customer_id fo = customer_id f
           \<and> customer_id r = customer_id f \<and> order_date r = order_date f
           \<and> fc_cohort_month r = fo_cohort_month fo
           \<and> months_since_cohort r = month_no (order_date f) - month_no (first_order_date fo)"
proof -
  from assms obtain f fo where f: "f \<in> set facts" and fo: "fo \<in> set fos"
    and k: "fo_customer_id fo = customer_id f"
    and r: "r = order_row.extend f
              \<lparr>fc_cohort_month = fo_cohort_month fo,
               fc_acquisition_channel = acquisition_channel fo,
               months_since_cohort =
                 date_diff_month (date_trunc_month (first_order_date fo))
                                 (date_trunc_month (order_date f))\<rparr>"
    by (auto simp: fct_def)
  have "fo_customer_id fo = customer_id f
           \<and> customer_id r = customer_id f \<and> order_date r = order_date f
           \<and> fc_cohort_month r = fo_cohort_month fo
           \<and> months_since_cohort r = month_no (order_date f) - month_no (first_order_date fo)"
    by (simp add: k r order_row.extend_def date_diff_trunc)
  with f fo show ?thesis by blast
qed

text \<open>
  C6. Every row of \<open>fct\<close> (an order joined with the first-order row of its customer) has
  a months_since_cohort that is the number of whole calendar months from the month of
  the customer's first order (the earliest order_date among the customer's orders) to
  the month of this order; it is \<open>\<ge> 0\<close>, and 0 for an order of the acquisition month.
\<close>

theorem months_since_cohort_whole_months:
  "\<forall>r\<in>set (fct (fact_orders orders) (first_orders (fact_orders orders))).
     \<exists>d0. (\<exists>f\<in>set orders. customer_id f = customer_id r \<and> order_date f = d0)
        \<and> (\<forall>f\<in>set orders. customer_id f = customer_id r \<longrightarrow> ts_le d0 (order_date f))
        \<and> months_since_cohort r = months_between d0 (order_date r)
        \<and> 0 \<le> months_since_cohort r
        \<and> (month_no (order_date r) = month_no d0 \<longrightarrow> months_since_cohort r = 0)"
proof
  fix r
  assume "r \<in> set (fct (fact_orders orders) (first_orders (fact_orders orders)))"
  then have "r \<in> set (fct orders (first_orders orders))" by (simp add: fact_orders_def)
  from fct_row [OF this] obtain f fo where
    f: "f \<in> set orders" and fo: "fo \<in> set (first_orders orders)" and
    k: "fo_customer_id fo = customer_id f" and
    c: "customer_id r = customer_id f" and d: "order_date r = order_date f" and
    m: "months_since_cohort r = month_no (order_date f) - month_no (first_order_date fo)"
    by blast
  let ?d0 = "first_order_date fo"
  note mn = first_order_date_min [OF fo]
  from mn k c have 1: "\<exists>f\<in>set orders. customer_id f = customer_id r \<and> order_date f = ?d0"
    by simp
  from mn k c have 2: "\<forall>f\<in>set orders. customer_id f = customer_id r \<longrightarrow> ts_le ?d0 (order_date f)"
    by simp
  from 2 f c have "ts_le ?d0 (order_date f)" by simp
  then have "month_no ?d0 \<le> month_no (order_date f)" by (auto simp: ts_le_def)
  with m d have 3: "months_since_cohort r = months_between ?d0 (order_date r)"
    and 4: "0 \<le> months_since_cohort r"
    and 5: "month_no (order_date r) = month_no ?d0 \<longrightarrow> months_since_cohort r = 0"
    by (simp_all add: months_between_def)
  from 1 2 3 4 5
  show "\<exists>d0. (\<exists>f\<in>set orders. customer_id f = customer_id r \<and> order_date f = d0)
        \<and> (\<forall>f\<in>set orders. customer_id f = customer_id r \<longrightarrow> ts_le d0 (order_date f))
        \<and> months_since_cohort r = months_between d0 (order_date r)
        \<and> 0 \<le> months_since_cohort r
        \<and> (month_no (order_date r) = month_no d0 \<longrightarrow> months_since_cohort r = 0)"
    by blast
qed

lemma demo_first_orders:
  "first_orders (fact_orders demo_orders) =
     [\<lparr>fo_customer_id = Some ''c1'', first_order_date = \<lparr>month_no = 24276, in_month = 5\<rparr>,
       fo_cohort_month = ''2023-01'', acquisition_channel = Some ''ads''\<rparr>,
      \<lparr>fo_customer_id = Some ''c2'', first_order_date = \<lparr>month_no = 24277, in_month = 9\<rparr>,
       fo_cohort_month = ''2023-02'', acquisition_channel = Some ''seo''\<rparr>,
      \<lparr>fo_customer_id = None, first_order_date = \<lparr>month_no = 24277, in_month = 1\<rparr>,
       fo_cohort_month = ''2023-02'', acquisition_channel = Some ''seo''\<rparr>]"
  by (simp add: demo_orders_def demo_raw_orders_def load_inputs_def load_order_def
      raw_order.extend_def fact_orders_def first_orders_def min_ts_def ts_le_def any_value_def
      strftime_ym_def year_of_def month_of_def digit_def Let_def)

lemma demo_fct:
  "map (\<lambda>r. (order_id r, fc_cohort_month r, months_since_cohort r))
       (fct (fact_orders demo_orders) (first_orders (fact_orders demo_orders))) =
     [(''o1'', ''2023-01'', 0), (''o2'', ''2023-01'', 2), (''o3'', ''2023-02'', 0)]"
  unfolding demo_first_orders
  by (simp add: demo_orders_def demo_raw_orders_def load_inputs_def load_order_def
      raw_order.extend_def order_row.extend_def fact_orders_def fct_def date_diff_trunc)

theorem months_since_cohort_whole_months_witness:
  "map (\<lambda>r. (order_id r, fc_cohort_month r, months_since_cohort r))
       (fct (fact_orders demo_orders) (first_orders (fact_orders demo_orders))) =
     [(''o1'', ''2023-01'', 0), (''o2'', ''2023-01'', 2), (''o3'', ''2023-02'', 0)]
   \<and> list_all (\<lambda>r. 0 \<le> months_since_cohort r)
        (fct (fact_orders demo_orders) (first_orders (fact_orders demo_orders)))"
proof -
  from months_since_cohort_whole_months [of demo_orders]
  have "\<forall>r\<in>set (fct (fact_orders demo_orders) (first_orders (fact_orders demo_orders))).
          0 \<le> months_since_cohort r"
    by blast
  then show ?thesis by (simp add: demo_fct list_all_iff)
qed

section \<open>Properties of \<open>acq_counts\<close>\<close>

lemma first_orders_keys_aux:
  "set ks \<subseteq> customer_id ` set facts \<Longrightarrow>
   map fo_customer_id (concat (map (\<lambda>k.
       (case filter (\<lambda>f. customer_id f = k) facts of
          [] \<Rightarrow> []
        | f # fs \<Rightarrow>
            let d = foldl min_ts (order_date f) (map order_date fs)
            in [\<lparr>fo_customer_id = k, first_order_date = d, fo_cohort_month = strftime_ym d,
                 acquisition_channel = any_value (map channel (f # fs))\<rparr>])) ks)) = ks"
proof (induction ks)
  case Nil
  then show ?case by simp
next
  case (Cons k ks)
  then have "k \<in> customer_id ` set facts" by simp
  then have "filter (\<lambda>f. customer_id f = k) facts \<noteq> []"
    by (auto simp: filter_empty_conv)
  then obtain f fs where "filter (\<lambda>f. customer_id f = k) facts = f # fs"
    by (cases "filter (\<lambda>f. customer_id f = k) facts") auto
  with Cons show ?case by (simp add: Let_def)
qed

lemma first_orders_keys:
  "map fo_customer_id (first_orders facts) = remdups (map customer_id facts)"
  unfolding first_orders_def by (rule first_orders_keys_aux) simp

lemma sum_list_indicator:
  "distinct ms \<Longrightarrow> sum_list (map (\<lambda>m. if k = m \<and> q then (1::nat) else 0) ms)
     = (if k \<in> set ms \<and> q then 1 else 0)"
  by (induction ms) auto

lemma sum_length_filter_groups:
  "distinct ms \<Longrightarrow> f ` set xs \<subseteq> set ms \<Longrightarrow>
   sum_list (map (\<lambda>m. length (filter (\<lambda>x. f x = m \<and> Q x) xs)) ms) = length (filter Q xs)"
proof (induction xs)
  case Nil
  then show ?case by simp
next
  case (Cons x xs)
  have "sum_list (map (\<lambda>m. length (filter (\<lambda>x. f x = m \<and> Q x) (x # xs))) ms)
      = sum_list (map (\<lambda>m. (if f x = m \<and> Q x then 1 else 0)
                           + length (filter (\<lambda>x. f x = m \<and> Q x) xs)) ms)"
    by (intro arg_cong [where f = sum_list] map_cong) auto
  also have "\<dots> = sum_list (map (\<lambda>m. if f x = m \<and> Q x then 1 else 0) ms)
                 + sum_list (map (\<lambda>m. length (filter (\<lambda>x. f x = m \<and> Q x) xs)) ms)"
    by (simp add: sum_list_addf)
  also have "\<dots> = (if Q x then 1 else 0) + length (filter Q xs)"
    using Cons by (simp add: sum_list_indicator)
  finally show ?case by simp
qed

lemma count_distinct_group:
  assumes "distinct (map g xs)"
  shows "count_distinct (map g (filter P xs)) = int (length (filter (\<lambda>x. P x \<and> g x \<noteq> None) xs))"
proof -
  from assms have "distinct (map g (filter P xs))" by (rule distinct_map_filter)
  then have "distinct (filter (\<lambda>x. x \<noteq> None) (map g (filter P xs)))" by simp
  then have "remdups (filter (\<lambda>x. x \<noteq> None) (map g (filter P xs)))
             = filter (\<lambda>x. x \<noteq> None) (map g (filter P xs))"
    by (rule distinct_remdups_id)
  then have "count_distinct (map g (filter P xs))
      = int (length (filter (\<lambda>x. x \<noteq> None) (map g (filter P xs))))"
    by (simp only: count_distinct_def)
  also have "filter (\<lambda>x. x \<noteq> None) (map g (filter P xs))
      = map g (filter (\<lambda>x. P x \<and> g x \<noteq> None) xs)"
    by (simp only: filter_map filter_filter o_apply)
  finally show ?thesis by (simp only: length_map)
qed

lemma sum_list_int: "sum_list (map (\<lambda>m. int (h m)) ms) = int (sum_list (map h ms))"
  by (induction ms) simp_all

lemma card_somes:
  "card (set (filter (\<lambda>k. k \<noteq> None) (remdups ks))) = card {c. Some c \<in> set ks}"
proof -
  have "set (filter (\<lambda>k. k \<noteq> None) (remdups ks)) = Some ` {c. Some c \<in> set ks}"
    by (auto simp: image_iff)
  then show ?thesis by (simp add: card_image)
qed

lemma sql_acq_counts_total:
  "sum_list (map aq_new_customers (sql_acq_counts (first_orders facts)))
     = int (card {c. Some c \<in> customer_id ` set facts})"
proof -
  let ?fos = "first_orders facts"
  let ?ms = "sort (remdups (map fo_cohort_month ?fos))"
  have d: "distinct (map fo_customer_id ?fos)" by (simp add: first_orders_keys)
  have "sum_list (map aq_new_customers (sql_acq_counts ?fos))
      = sum_list (map (\<lambda>m. int (length (filter (\<lambda>fo. fo_cohort_month fo = m \<and> fo_customer_id fo \<noteq> None) ?fos))) ?ms)"
    by (simp add: sql_acq_counts_def comp_def count_distinct_group [OF d])
  also have "\<dots> = int (length (filter (\<lambda>fo. fo_customer_id fo \<noteq> None) ?fos))"
    unfolding sum_list_int by (simp add: sum_length_filter_groups)
  also have "length (filter (\<lambda>fo. fo_customer_id fo \<noteq> None) ?fos)
      = length (filter (\<lambda>k. k \<noteq> None) (map fo_customer_id ?fos))"
    by (simp add: filter_map comp_def)
  also have "\<dots> = card (set (filter (\<lambda>k. k \<noteq> None) (remdups (map customer_id facts))))"
  proof -
    have "distinct (filter (\<lambda>k. k \<noteq> None) (remdups (map customer_id facts)))" by simp
    from distinct_card [OF this] show ?thesis by (simp only: first_orders_keys)
  qed
  also have "\<dots> = card {c. Some c \<in> customer_id ` set facts}"
    by (simp only: card_somes set_map)
  finally show ?thesis .
qed

text \<open>
  C8. For every order table, \<open>acq_counts\<close> has one row for each cohort month, and its
  new_customers column sums to the number of distinct customer_id values of the orders
  (\<open>COUNT(DISTINCT customer_id)\<close> over the whole table, which does not count a missing
  customer_id).
\<close>

theorem new_customers_sum_is_distinct_customers:
  "\<exists>cr acq cac. build_mart_and_cohorts orders spend = (cr, acq, cac)
     \<and> acq = sql_acq_counts (first_orders (fact_orders orders))
     \<and> distinct (map aq_cohort_month acq)
     \<and> sum_list (map aq_new_customers acq) = int (card {c. Some c \<in> customer_id ` set orders})"
proof -
  have "distinct (map aq_cohort_month (sql_acq_counts (first_orders (fact_orders orders))))"
    by (simp add: sql_acq_counts_def comp_def)
  moreover have "sum_list (map aq_new_customers (sql_acq_counts (first_orders (fact_orders orders))))
     = int (card {c. Some c \<in> customer_id ` set orders})"
    using sql_acq_counts_total [of "fact_orders orders"] by (simp add: fact_orders_def)
  ultimately show ?thesis
    by (simp add: build_mart_and_cohorts_def Let_def)
qed

theorem new_customers_sum_is_distinct_customers_witness:
  "sql_acq_counts (first_orders (fact_orders demo_orders)) =
     [\<lparr>aq_cohort_month = ''2023-01'', aq_new_customers = 1\<rparr>,
      \<lparr>aq_cohort_month = ''2023-02'', aq_new_customers = 1\<rparr>]
   \<and> None \<in> customer_id ` set demo_orders
   \<and> card {c. Some c \<in> customer_id ` set demo_orders} = 2"
proof -
  have a: "sql_acq_counts (first_orders (fact_orders demo_orders)) =
     [\<lparr>aq_cohort_month = ''2023-01'', aq_new_customers = 1\<rparr>,
      \<lparr>aq_cohort_month = ''2023-02'', aq_new_customers = 1\<rparr>]"
    unfolding demo_first_orders by (simp add: sql_acq_counts_def count_distinct_def)
  have n: "None \<in> customer_id ` set demo_orders"
    by (simp add: demo_orders_def demo_raw_orders_def load_inputs_def load_order_def
        raw_order.extend_def)
  from new_customers_sum_is_distinct_customers [of demo_orders "[]"]
  have "sum_list (map aq_new_customers (sql_acq_counts (first_orders (fact_orders demo_orders))))
          = int (card {c. Some c \<in> customer_id ` set demo_orders})"
    by auto
  then have "card {c. Some c \<in> customer_id ` set demo_orders} = 2"
    unfolding a by simp
  with a n show ?thesis by simp
qed

section \<open>Properties of the summary of \<open>export_excel\<close>\<close>

lemma export_excel_no_columns:
  "columns g = [] \<Longrightarrow> export_excel g cac_df = Inl KeyError"
  by (simp add: export_excel_def select_column_def latest_column_def)

lemma unfunded_ltv_frame:
  "ltv_frame unfunded_cohort_rev unfunded_acq =
     [\<lparr>rv_cohort_month = ''2023-01'', rv_months_since_cohort = 0, rv_revenue = Fin 100,
       lt_new_customers = Fin 10, lt_ltv = Fin 10\<rparr>,
      \<lparr>rv_cohort_month = ''2023-01'', rv_months_since_cohort = 1, rv_revenue = Fin 50,
       lt_new_customers = Fin 10, lt_ltv = Fin 5\<rparr>,
      \<lparr>rv_cohort_month = ''2023-02'', rv_months_since_cohort = 0, rv_revenue = Fin 20,
       lt_new_customers = Fin 4, lt_ltv = Fin 5\<rparr>]"
  by (simp add: ltv_frame_def merge_left_acq_def unfunded_cohort_rev_def unfunded_acq_def
      replace_0_nan_def rev_row.extend_def)

lemma unfunded_ltv_tables:
  "ltv_tables unfunded_cohort_rev unfunded_acq = Inr unfunded_ltv_cum"
  by (simp add: ltv_tables_def ltv_pivot_def pivot_def unfunded_ltv_frame ltv_key_def
      fillna_grid_def fillna_0_def sort_index_def cumsum_axis1_def cumsum_row_def
      unfunded_ltv_cum_def)

lemma unfunded_cac_frame:
  "cac_frame unfunded_acq unfunded_spend =
     [\<lparr>aq_cohort_month = ''2023-01'', aq_new_customers = 10,
       cc_spend_total = Fin 250, cc_CAC = Fin 25\<rparr>,
      \<lparr>aq_cohort_month = ''2023-02'', aq_new_customers = 4,
       cc_spend_total = Fin 0, cc_CAC = Fin 0\<rparr>]"
  by (simp add: cac_frame_eq unfunded_acq_def unfunded_spend_def month_spend_def nansum_def
      acq_row.extend_def fillna_0_def replace_0_nan_def)

lemma unfunded_export:
  "export_excel unfunded_ltv_cum (cac_frame unfunded_acq unfunded_spend) = Inr unfunded_summary"
  unfolding unfunded_cac_frame
  by (simp add: export_excel_def select_column_def latest_column_def merge_left_cac_def
      autosize_def sizable_def grid_column_def unfunded_ltv_cum_def unfunded_summary_def)

text \<open>
  C4 fails on the code. The cohort 2023-02 has new customers and revenue but no spend row,
  so its CAC is 0 (spend is non-negative throughout); \<open>export_excel\<close> returns the summary,
  in which LTV_latest of that cohort is 5, the value of the grid at the largest offset, and
  its LTV_to_CAC is the infinity \<open>PInf\<close> and not the undefined marker \<open>NaN\<close>. The
  quotient of line 109 is taken without the guard \<open>replace(0, np.nan)\<close> that the divisions
  of \<open>build_mart_and_cohorts\<close> and \<open>ltv_tables\<close> put on their divisor.
\<close>

theorem export_excel_zero_cac_gives_infinity:
  "ltv_tables unfunded_cohort_rev unfunded_acq = Inr unfunded_ltv_cum
   \<and> map sp_month unfunded_spend = [''2023-01'']
   \<and> list_all (\<lambda>r. fle (Fin 0) (sp_spend r)) unfunded_spend
   \<and> map (\<lambda>r. (aq_cohort_month r, cc_CAC r)) (cac_frame unfunded_acq unfunded_spend) =
       [(''2023-01'', Fin 25), (''2023-02'', Fin 0)]
   \<and> export_excel unfunded_ltv_cum (cac_frame unfunded_acq unfunded_spend) =
       Inr [\<lparr>sm_cohort_month = ''2023-01'', sm_LTV_latest = Fin 15, sm_CAC = Fin 25,
              sm_LTV_to_CAC = Fin (3 / 5)\<rparr>,
            \<lparr>sm_cohort_month = ''2023-02'', sm_LTV_latest = Fin 5, sm_CAC = Fin 0,
              sm_LTV_to_CAC = PInf\<rparr>]
   \<and> PInf \<noteq> NaN"
proof -
  have 1: "ltv_tables unfunded_cohort_rev unfunded_acq = Inr unfunded_ltv_cum"
    by (rule unfunded_ltv_tables)
  have 2: "map sp_month unfunded_spend = [''2023-01'']"
    "list_all (\<lambda>r. fle (Fin 0) (sp_spend r)) unfunded_spend"
    by (simp_all add: unfunded_spend_def)
  have 3: "map (\<lambda>r. (aq_cohort_month r, cc_CAC r)) (cac_frame unfunded_acq unfunded_spend) =
       [(''2023-01'', Fin 25), (''2023-02'', Fin 0)]"
    by (simp add: unfunded_cac_frame)
  have 4: "export_excel unfunded_ltv_cum (cac_frame unfunded_acq unfunded_spend) =
       Inr [\<lparr>sm_cohort_month = ''2023-01'', sm_LTV_latest = Fin 15, sm_CAC = Fin 25,
              sm_LTV_to_CAC = Fin (3 / 5)\<rparr>,
            \<lparr>sm_cohort_month = ''2023-02'', sm_LTV_latest = Fin 5, sm_CAC = Fin 0,
              sm_LTV_to_CAC = PInf\<rparr>]"
    using unfunded_export by (simp only: unfunded_summary_def)
  have 5: "PInf \<noteq> NaN" by simp
  from 1 2 3 4 5 show ?thesis by (intro conjI)
qed

end
